theory Spec2Isabelle
  imports Main "HOL-Library.Multiset" "HOL-Library.Sublist"
begin

section \<open>Data model\<close>

text \<open>
  The repository holds three variants of one agent for the auctioned Yacht game:
  \<^verbatim>\<open>src/1650.py\<close>, \<^verbatim>\<open>src/testing-tool-yacht-cli/main.py\<close> and
  \<^verbatim>\<open>src/testing-tool-yacht-cli/test2.py\<close>. The classes \<^verbatim>\<open>DiceRule\<close>,
  \<^verbatim>\<open>Bid\<close>, \<^verbatim>\<open>DicePut\<close> and \<^verbatim>\<open>GameState\<close> of \<^verbatim>\<open>1650.py\<close> and
  \<^verbatim>\<open>main.py\<close> are the same text. Definitions without a suffix embed \<^verbatim>\<open>1650.py\<close>;
  the suffix \<open>_t2\<close> marks \<^verbatim>\<open>test2.py\<close> and \<open>_main\<close> marks \<^verbatim>\<open>main.py\<close>.
  Python integers are \<^typ>\<open>int\<close>; a raised exception is a value of \<open>py_error\<close>.
\<close>

datatype DiceRule =
  ONE | TWO | THREE | FOUR | FIVE | SIX | CHOICE | FOUR_OF_A_KIND | FULL_HOUSE
  | SMALL_STRAIGHT | LARGE_STRAIGHT | YACHT

text \<open>\<^verbatim>\<open>rule.value\<close>: the index of a rule in \<^verbatim>\<open>rule_score\<close>.\<close>

fun rule_value :: "DiceRule \<Rightarrow> nat" where
  "rule_value ONE = 0"
| "rule_value TWO = 1"
| "rule_value THREE = 2"
| "rule_value FOUR = 3"
| "rule_value FIVE = 4"
| "rule_value SIX = 5"
| "rule_value CHOICE = 6"
| "rule_value FOUR_OF_A_KIND = 7"
| "rule_value FULL_HOUSE = 8"
| "rule_value SMALL_STRAIGHT = 9"
| "rule_value LARGE_STRAIGHT = 10"
| "rule_value YACHT = 11"

datatype py_error = AssertionError | ValueError | IndexError


text \<open>
  \<^verbatim>\<open>DicePut\<close>: the field \<open>put_dice\<close> is \<^verbatim>\<open>DicePut.dice\<close> (renamed, since
  \<^verbatim>\<open>GameState.dice\<close> is a field too). The dataclass annotates \<^verbatim>\<open>rule: DiceRule\<close>, so
  the rule is never \<^verbatim>\<open>None\<close> here.
\<close>

record DicePut =
  rule :: DiceRule
  put_dice :: "int list"

record GameState =
  dice :: "int list"
  rule_score :: "int option list"
  bid_score :: int

definition GameState_init :: GameState where
  "GameState_init = \<lparr>dice = [], rule_score = replicate 12 None, bid_score = 0\<rparr>"

section \<open>Category scoring (\<^verbatim>\<open>GameState.calculate_score\<close>)\<close>

text \<open>\<^verbatim>\<open>any(p(i) for i in range(1, 7))\<close>\<close>

definition any_1_6 :: "(int \<Rightarrow> bool) \<Rightarrow> bool" where
  "any_1_6 p = list_ex p [1, 2, 3, 4, 5, 6]"

text \<open>\<^verbatim>\<open>e_i = dice.count(i) > 0\<close>\<close>

definition has_value :: "int list \<Rightarrow> int \<Rightarrow> bool" where
  "has_value ds i = (count_list ds i > 0)"

text \<open>\<^verbatim>\<open>1650.py\<close> lines 94-153 (the same text in \<^verbatim>\<open>main.py\<close>).\<close>

fun calculate_score :: "DiceRule \<Rightarrow> int list \<Rightarrow> int" where
  "calculate_score ONE ds = sum_list (filter (\<lambda>d. d = 1) ds) * 1000"
| "calculate_score TWO ds = sum_list (filter (\<lambda>d. d = 2) ds) * 1000"
| "calculate_score THREE ds = sum_list (filter (\<lambda>d. d = 3) ds) * 1000"
| "calculate_score FOUR ds = sum_list (filter (\<lambda>d. d = 4) ds) * 1000"
| "calculate_score FIVE ds = sum_list (filter (\<lambda>d. d = 5) ds) * 1000"
| "calculate_score SIX ds = sum_list (filter (\<lambda>d. d = 6) ds) * 1000"
| "calculate_score CHOICE ds = sum_list ds * 1000"
| "calculate_score FOUR_OF_A_KIND ds =
     (if any_1_6 (\<lambda>i. count_list ds i \<ge> 4) then sum_list ds * 1000 else 0)"
| "calculate_score FULL_HOUSE ds =
     (let pair = any_1_6 (\<lambda>i. count_list ds i = 2 \<or> count_list ds i = 5);
          triple = any_1_6 (\<lambda>i. count_list ds i = 3 \<or> count_list ds i = 5)
      in if pair \<and> triple then sum_list ds * 1000 else 0)"
| "calculate_score SMALL_STRAIGHT ds =
     (let e = has_value ds in
      if (e 1 \<and> e 2 \<and> e 3 \<and> e 4) \<or> (e 2 \<and> e 3 \<and> e 4 \<and> e 5) \<or> (e 3 \<and> e 4 \<and> e 5 \<and> e 6)
      then 15000 else 0)"
| "calculate_score LARGE_STRAIGHT ds =
     (let e = has_value ds in
      if (e 1 \<and> e 2 \<and> e 3 \<and> e 4 \<and> e 5) \<or> (e 2 \<and> e 3 \<and> e 4 \<and> e 5 \<and> e 6)
      then 30000 else 0)"
| "calculate_score YACHT ds =
     (if any_1_6 (\<lambda>i. count_list ds i = 5) then 50000 else 0)"

text \<open>
  \<^verbatim>\<open>test2.py\<close> lines 222-252. \<^verbatim>\<open>counts = [dice.count(i) for i in range(1, 7)]\<close>;
  FULL_HOUSE is \<^verbatim>\<open>3 in counts and 2 in counts\<close>; LARGE_STRAIGHT joins the decimal
  strings of the sorted hand and compares the result with "12345" and "23456".
\<close>

text \<open>\<^verbatim>\<open>str(i)\<close> for an integer: its decimal digits, with a minus sign when negative.\<close>

fun digits :: "nat \<Rightarrow> string" where
  "digits n =
     (if n < 10 then [''0123456789'' ! n]
      else digits (n div 10) @ [''0123456789'' ! (n mod 10)])"

declare digits.simps [simp del]

definition py_str :: "int \<Rightarrow> string" where
  "py_str i = (if i < 0 then CHR ''-'' # digits (nat (- i)) else digits (nat i))"

definition counts_t2 :: "int list \<Rightarrow> nat list" where
  "counts_t2 ds = map (count_list ds) [1, 2, 3, 4, 5, 6]"

fun calculate_score_t2 :: "DiceRule \<Rightarrow> int list \<Rightarrow> int" where
  "calculate_score_t2 ONE ds = int (count_list ds 1) * 1 * 1000"
| "calculate_score_t2 TWO ds = int (count_list ds 2) * 2 * 1000"
| "calculate_score_t2 THREE ds = int (count_list ds 3) * 3 * 1000"
| "calculate_score_t2 FOUR ds = int (count_list ds 4) * 4 * 1000"
| "calculate_score_t2 FIVE ds = int (count_list ds 5) * 5 * 1000"
| "calculate_score_t2 SIX ds = int (count_list ds 6) * 6 * 1000"
| "calculate_score_t2 CHOICE ds = sum_list ds * 1000"
| "calculate_score_t2 FOUR_OF_A_KIND ds =
     (if list_ex (\<lambda>c. c \<ge> 4) (counts_t2 ds) then sum_list ds * 1000 else 0)"
| "calculate_score_t2 FULL_HOUSE ds =
     (if 3 \<in> set (counts_t2 ds) \<and> 2 \<in> set (counts_t2 ds) then sum_list ds * 1000 else 0)"
| "calculate_score_t2 SMALL_STRAIGHT ds =
     (if list_ex (\<lambda>s. set s \<subseteq> set ds) [[1, 2, 3, 4], [2, 3, 4, 5], [3, 4, 5, 6]]
      then 15000 else 0)"
| "calculate_score_t2 LARGE_STRAIGHT ds =
     (if concat (map py_str (sort ds)) \<in> set [''12345'', ''23456''] then 30000 else 0)"
| "calculate_score_t2 YACHT ds =
     (if list_ex (\<lambda>c. c = 5) (counts_t2 ds) then 50000 else 0)"

section \<open>Agent state (\<^verbatim>\<open>GameState\<close>)\<close>

text \<open>\<^verbatim>\<open>sum(score for score in xs if score is not None)\<close>\<close>

definition sum_filled :: "int option list \<Rightarrow> int" where
  "sum_filled xs = sum_list (map the (filter (\<lambda>s. s \<noteq> None) xs))"

text \<open>\<^verbatim>\<open>get_total_score\<close>, lines 49-58; the slices are \<^verbatim>\<open>[0:6]\<close> and \<^verbatim>\<open>[6:12]\<close>.\<close>

definition get_total_score :: "GameState \<Rightarrow> int" where
  "get_total_score s =
     (let basic = sum_filled (take 6 (rule_score s));
          bonus = (if basic \<ge> 63000 then 35000 else 0);
          combination = sum_filled (take 6 (drop 6 (rule_score s)))
      in basic + bonus + combination + bid_score s)"

text \<open>\<^verbatim>\<open>bid\<close>, lines 60-65.\<close>

definition bid :: "GameState \<Rightarrow> bool \<Rightarrow> int \<Rightarrow> GameState" where
  "bid s is_successful amt =
     (if is_successful then s\<lparr>bid_score := bid_score s - amt\<rparr>
      else s\<lparr>bid_score := bid_score s + amt\<rparr>)"

text \<open>\<^verbatim>\<open>add_dice\<close>, lines 67-69.\<close>

definition add_dice :: "GameState \<Rightarrow> int list \<Rightarrow> GameState" where
  "add_dice s new_dice = s\<lparr>dice := dice s @ new_dice\<rparr>"

text \<open>
  The removal loop of \<^verbatim>\<open>use_dice\<close> in \<^verbatim>\<open>1650.py\<close> (lines 81-88): a die that is in
  the pool is removed (\<^verbatim>\<open>list.remove\<close> drops the first occurrence), a die that is not
  is skipped (\<^verbatim>\<open>continue\<close>).
\<close>

fun remove_present :: "int list \<Rightarrow> int list \<Rightarrow> int list" where
  "remove_present pool [] = pool"
| "remove_present pool (d # ds) =
     (if d \<in> set pool then remove_present (remove1 d pool) ds else remove_present pool ds)"

text \<open>
  \<^verbatim>\<open>use_dice\<close>, lines 71-92. The \<^verbatim>\<open>assert\<close> raises when the rule's slot is not
  \<^verbatim>\<open>None\<close>; a rule index beyond the list raises \<^verbatim>\<open>IndexError\<close>.
\<close>

definition use_dice :: "GameState \<Rightarrow> DicePut \<Rightarrow> py_error + GameState" where
  "use_dice s put =
     (let i = rule_value (rule put) in
      if i \<ge> length (rule_score s) then Inl IndexError
      else if rule_score s ! i \<noteq> None then Inl AssertionError
      else Inr (s\<lparr>dice := remove_present (dice s) (put_dice put),
                  rule_score := (rule_score s)[i := Some (calculate_score (rule put) (put_dice put))]\<rparr>))"

text \<open>
  \<^verbatim>\<open>use_dice\<close> of \<^verbatim>\<open>test2.py\<close>, lines 150-155: \<^verbatim>\<open>self.dice.remove(d)\<close> raises
  \<^verbatim>\<open>ValueError\<close> when \<^verbatim>\<open>d\<close> is not in the pool. The dice removed before the
  exception stay removed in the source; the exception is not caught by \<^verbatim>\<open>main\<close> (only
  \<^verbatim>\<open>EOFError\<close> is), so the program ends and the result here is the exception alone.
\<close>

fun remove_all_t2 :: "int list \<Rightarrow> int list \<Rightarrow> py_error + int list" where
  "remove_all_t2 pool [] = Inr pool"
| "remove_all_t2 pool (d # ds) =
     (if d \<in> set pool then remove_all_t2 (remove1 d pool) ds else Inl ValueError)"

definition use_dice_t2 :: "GameState \<Rightarrow> DicePut \<Rightarrow> py_error + GameState" where
  "use_dice_t2 s put =
     (let i = rule_value (rule put) in
      if i \<ge> length (rule_score s) then Inl IndexError
      else if rule_score s ! i \<noteq> None then Inl AssertionError
      else (case remove_all_t2 (dice s) (put_dice put) of
              Inl e \<Rightarrow> Inl e
            | Inr pool \<Rightarrow>
                Inr (s\<lparr>dice := pool,
                       rule_score :=
                         (rule_score s)[i := Some (calculate_score_t2 (rule put) (put_dice put))]\<rparr>)))"

section \<open>Session state (\<^verbatim>\<open>Game\<close>) and award resolution\<close>

text \<open>
  The fields of \<^verbatim>\<open>Game\<close> in \<^verbatim>\<open>1650.py\<close>. \<^verbatim>\<open>start_time\<close> only feeds the debug log and
  is left out. \<^verbatim>\<open>sorted_dice_unique\<close> and \<^verbatim>\<open>sorted_dice\<close> are the attributes that
  \<^verbatim>\<open>calculate_put\<close> assigns before it calls \<^verbatim>\<open>find_optimal_dice_for_rule\<close>.
\<close>

record Game =
  my_state :: GameState
  opp_state :: GameState
  current_round :: int
  opponent_bids :: "int \<rightharpoonup> int"
  opponent_yacht_completed :: bool
  my_yacht_completed :: bool
  sorted_dice_unique :: "int list"
  sorted_dice :: "int list"





text \<open>
  The three operations that change a \<^verbatim>\<open>GameState\<close> after its creation, and a run of
  them that stops at the first exception.
\<close>

datatype state_op = Op_bid bool int | Op_add_dice "int list" | Op_use_dice DicePut

fun apply_op :: "GameState \<Rightarrow> state_op \<Rightarrow> py_error + GameState" where
  "apply_op s (Op_bid ok amt) = Inr (bid s ok amt)"
| "apply_op s (Op_add_dice ds) = Inr (add_dice s ds)"
| "apply_op s (Op_use_dice put) = use_dice s put"

fun apply_ops :: "GameState \<Rightarrow> state_op list \<Rightarrow> py_error + GameState" where
  "apply_ops s [] = Inr s"
| "apply_ops s (x # xs) = (case apply_op s x of Inl e \<Rightarrow> Inl e | Inr s' \<Rightarrow> apply_ops s' xs)"

text \<open>The score a rule contributes to the total: its slot, or 0 while the slot is \<^verbatim>\<open>None\<close>.\<close>

definition filled :: "GameState \<Rightarrow> DiceRule \<Rightarrow> int" where
  "filled s r = (case rule_score s ! rule_value r of None \<Rightarrow> 0 | Some v \<Rightarrow> v)"

text \<open>
  The two shapes a five-dice hand can have for FULL_HOUSE, in the words of the
  specification: a value that occurs three times with a different value that occurs twice,
  or one value five times.
\<close>

definition strict_full_house :: "int list \<Rightarrow> bool" where
  "strict_full_house ds \<longleftrightarrow> (\<exists>a b. a \<noteq> b \<and> count_list ds a = 3 \<and> count_list ds b = 2)"

definition full_house_shape :: "int list \<Rightarrow> bool" where
  "full_house_shape ds \<longleftrightarrow> strict_full_house ds \<or> (\<exists>a. count_list ds a = 5)"

section \<open>Potential value estimator (\<^verbatim>\<open>test2.py\<close>)\<close>

text \<open>
  \<^verbatim>\<open>itertools.combinations(xs, k)\<close>: the sublists of \<open>k\<close> positions of \<open>xs\<close>, in the
  order of their positions.
\<close>

fun combinations :: "'a list \<Rightarrow> nat \<Rightarrow> 'a list list" where
  "combinations xs 0 = [[]]"
| "combinations [] (Suc k) = []"
| "combinations (x # xs) (Suc k) = map ((#) x) (combinations xs k) @ combinations xs (Suc k)"

text \<open>
  The two nested loops of \<^verbatim>\<open>calculate_potential_score\<close> (\<^verbatim>\<open>test2.py\<close> lines 213-218), with
  the running \<^verbatim>\<open>best_score\<close> as the accumulator.
\<close>

definition best_over_rules :: "int \<Rightarrow> int list \<Rightarrow> DiceRule list \<Rightarrow> int" where
  "best_over_rules best_score hand unused_rules =
     foldl (\<lambda>b r. let score = calculate_score_t2 r hand in if score > b then score else b)
       best_score unused_rules"

definition best_over_hands :: "int \<Rightarrow> int list list \<Rightarrow> DiceRule list \<Rightarrow> int" where
  "best_over_hands best_score hands unused_rules =
     foldl (\<lambda>b hand. best_over_rules b hand unused_rules) best_score hands"

text \<open>
  \<^verbatim>\<open>calculate_potential_score\<close>, \<^verbatim>\<open>test2.py\<close> lines 200-219. The source draws
  \<^verbatim>\<open>random.sample(all_combinations, 300)\<close> from the generator of the \<^verbatim>\<open>random\<close> module;
  here the draw is the parameter \<open>sample\<close> (population and size to the chosen list), and
  the literal 300 is the parameter \<open>budget\<close>, so that the budget can be varied.
  \<open>calculate_potential_score_t2\<close> is the function with the source's 300.
\<close>

definition calculate_potential_score_budget ::
  "(int list list \<Rightarrow> nat \<Rightarrow> int list list) \<Rightarrow> nat \<Rightarrow> int list \<Rightarrow> DiceRule list \<Rightarrow> int" where
  "calculate_potential_score_budget sample budget dice_pool unused_rules =
     (let num_dice_to_choose = min (length dice_pool) 5;
          all_combinations = combinations dice_pool num_dice_to_choose;
          sampled = (if length all_combinations > budget then sample all_combinations budget
                     else all_combinations)
      in best_over_hands 0 sampled unused_rules)"

definition calculate_potential_score_t2 ::
  "(int list list \<Rightarrow> nat \<Rightarrow> int list list) \<Rightarrow> int list \<Rightarrow> DiceRule list \<Rightarrow> int" where
  "calculate_potential_score_t2 sample = calculate_potential_score_budget sample 300"






section \<open>Placement optimizer (\<^verbatim>\<open>1650.py\<close>)\<close>

text \<open>
  The slot of a rule, \<^verbatim>\<open>self.my_state.rule_score[rule.value]\<close>. Every \<^verbatim>\<open>GameState\<close> is
  created with twelve slots and no operation changes their number.
\<close>

definition slot :: "GameState \<Rightarrow> DiceRule \<Rightarrow> int option" where
  "slot s r = rule_score s ! rule_value r"

text \<open>
  Python's index into a list of length \<open>n\<close>: a negative index counts from the end, an
  index outside \<open>-n..n-1\<close> raises \<^verbatim>\<open>IndexError\<close>.
\<close>

definition py_index :: "nat \<Rightarrow> int \<Rightarrow> nat option" where
  "py_index n i =
     (if 0 \<le> i \<and> i < int n then Some (nat i)
      else if - int n \<le> i \<and> i < 0 then Some (nat (int n + i))
      else None)"

text \<open>\<^verbatim>\<open>for d in dice: has[d] = True\<close>\<close>

fun mark_values :: "bool list \<Rightarrow> int list \<Rightarrow> py_error + bool list" where
  "mark_values has [] = Inr has"
| "mark_values has (d # ds) =
     (case py_index (length has) d of
        None \<Rightarrow> Inl IndexError
      | Some j \<Rightarrow> mark_values (has[j := True]) ds)"

text \<open>\<^verbatim>\<open>calculate_rule_potential_score\<close>, \<^verbatim>\<open>1650.py\<close> lines 337-384.\<close>

fun calculate_rule_potential_score :: "int list \<Rightarrow> DiceRule \<Rightarrow> py_error + int" where
  "calculate_rule_potential_score ds ONE = Inr (sum_list (filter (\<lambda>d. d = 1) ds) * 1000)"
| "calculate_rule_potential_score ds TWO = Inr (sum_list (filter (\<lambda>d. d = 2) ds) * 1000)"
| "calculate_rule_potential_score ds THREE = Inr (sum_list (filter (\<lambda>d. d = 3) ds) * 1000)"
| "calculate_rule_potential_score ds FOUR = Inr (sum_list (filter (\<lambda>d. d = 4) ds) * 1000)"
| "calculate_rule_potential_score ds FIVE = Inr (sum_list (filter (\<lambda>d. d = 5) ds) * 1000)"
| "calculate_rule_potential_score ds SIX = Inr (sum_list (filter (\<lambda>d. d = 6) ds) * 1000)"
| "calculate_rule_potential_score ds CHOICE = Inr (sum_list ds * 1000)"
| "calculate_rule_potential_score ds FOUR_OF_A_KIND =
     Inr (if any_1_6 (\<lambda>i. count_list ds i \<ge> 4) then sum_list ds * 1000 else 0)"
| "calculate_rule_potential_score ds FULL_HOUSE =
     (let has_pair = any_1_6 (\<lambda>i. count_list ds i = 2 \<or> count_list ds i = 5);
          has_triple = any_1_6 (\<lambda>i. count_list ds i = 3 \<or> count_list ds i = 5)
      in Inr (if has_pair \<and> has_triple then sum_list ds * 1000 else 0))"
| "calculate_rule_potential_score ds SMALL_STRAIGHT =
     (case mark_values (replicate 7 False) ds of
        Inl e \<Rightarrow> Inl e
      | Inr has \<Rightarrow>
          Inr (if (has ! 1 \<and> has ! 2 \<and> has ! 3 \<and> has ! 4)
                  \<or> (has ! 2 \<and> has ! 3 \<and> has ! 4 \<and> has ! 5)
                  \<or> (has ! 3 \<and> has ! 4 \<and> has ! 5 \<and> has ! 6)
               then 15000 else 0))"
| "calculate_rule_potential_score ds LARGE_STRAIGHT =
     (case mark_values (replicate 7 False) ds of
        Inl e \<Rightarrow> Inl e
      | Inr has \<Rightarrow>
          Inr (if (has ! 1 \<and> has ! 2 \<and> has ! 3 \<and> has ! 4 \<and> has ! 5)
                  \<or> (has ! 2 \<and> has ! 3 \<and> has ! 4 \<and> has ! 5 \<and> has ! 6)
               then 30000 else 0))"
| "calculate_rule_potential_score ds YACHT =
     Inr (if any_1_6 (\<lambda>i. count_list ds i = 5) then 50000 else 0)"

text \<open>\<^verbatim>\<open>score = self.calculate_rule_potential_score(dice, rule); return (dice, score)\<close>\<close>

definition with_score :: "int list \<Rightarrow> DiceRule \<Rightarrow> py_error + (int list \<times> int)" where
  "with_score ds r =
     (case calculate_rule_potential_score ds r of Inl e \<Rightarrow> Inl e | Inr score \<Rightarrow> Inr (ds, score))"

text \<open>The last lines of \<^verbatim>\<open>find_optimal_dice_for_rule\<close> (980-983).\<close>

definition default_dice :: "int list \<Rightarrow> DiceRule \<Rightarrow> py_error + (int list \<times> int)" where
  "default_dice my_dice r =
     with_score (if length my_dice \<ge> 5 then take 5 my_dice else replicate 5 0) r"

text \<open>\<open>n\<close> times \<^verbatim>\<open>temp_dice.remove(x)\<close>.\<close>

primrec remove_n :: "nat \<Rightarrow> int \<Rightarrow> int list \<Rightarrow> int list" where
  "remove_n 0 x xs = xs"
| "remove_n (Suc n) x xs = remove_n n x (remove1 x xs)"

text \<open>\<^verbatim>\<open>while len(dice) < 5 and 6 in temp_dice: dice.append(6); temp_dice.remove(6)\<close>\<close>

function take_sixes :: "int list \<Rightarrow> int list \<Rightarrow> int list \<times> int list" where
  "take_sixes ds temp =
     (if length ds < 5 \<and> 6 \<in> set temp then take_sixes (ds @ [6]) (remove1 6 temp)
      else (ds, temp))"
  by pat_completeness auto
termination
  by (relation "measure (\<lambda>(ds, temp). 5 - length ds)") auto

declare take_sixes.simps [simp del]

text \<open>
  \<^verbatim>\<open>while len(dice) < 5 and unique_dice: selected = unique_dice.pop(0); ...\<close>
  (lines 733-737).
\<close>

fun take_unique :: "int list \<Rightarrow> int list \<Rightarrow> int list \<Rightarrow> int list \<times> int list" where
  "take_unique ds temp [] = (ds, temp)"
| "take_unique ds temp (selected # unique_dice) =
     (if length ds < 5 then
        (if selected \<in> set temp then take_unique (ds @ [selected]) (remove1 selected temp) unique_dice
         else take_unique ds temp unique_dice)
      else (ds, temp))"

text \<open>\<^verbatim>\<open>while len(dice) < 5 and temp_dice: dice.append(temp_dice.pop(0))\<close>\<close>

fun fill_from :: "int list \<Rightarrow> int list \<Rightarrow> int list" where
  "fill_from ds [] = ds"
| "fill_from ds (t # temp) = (if length ds < 5 then fill_from (ds @ [t]) temp else ds)"

text \<open>
  The number-rule branch (lines 703-759) for a target number that the pool holds. The keys
  of \<^verbatim>\<open>remaining_count\<close> are the distinct dice left after the targets were taken; their
  order does not matter, since \<^verbatim>\<open>unique_dice\<close> is sorted.
\<close>

definition number_rule_dice :: "Game \<Rightarrow> int \<Rightarrow> int list" where
  "number_rule_dice g target_number =
     (let my_dice = dice (my_state g);
          target_count = count_list my_dice target_number;
          k = min 5 target_count;
          dice0 = replicate k target_number;
          temp0 = remove_n k target_number my_dice;
          four_of_kind_available = (slot (my_state g) FOUR_OF_A_KIND = None);
          full_house_available = (slot (my_state g) FULL_HOUSE = None);
          high_rules_available = (four_of_kind_available \<or> full_house_available);
          (dice1, temp1) = (if high_rules_available \<and> 6 \<in> set temp0 then take_sixes dice0 temp0
                            else (dice0, temp0));
          unique_dice = sort (filter (\<lambda>num. count_list temp0 num = 1 \<and> num \<in> set temp1)
                                (remdups temp0));
          (dice2, temp2) = take_unique dice1 temp1 unique_dice;
          large_straight_completed = (slot (my_state g) LARGE_STRAIGHT \<noteq> None);
          small_straight_completed = (slot (my_state g) SMALL_STRAIGHT \<noteq> None);
          straights_completed = (large_straight_completed \<and> small_straight_completed);
          dice3 = (if straights_completed then fill_from dice2 (sort temp2)
                   else fill_from dice2 temp2)
      in dice3 @ replicate (5 - length dice3) 0)"

text \<open>Four dice of \<open>num\<close> and one more die (lines 782-794).\<close>

definition four_kind_dice :: "int list \<Rightarrow> int \<Rightarrow> int list" where
  "four_kind_dice my_dice num =
     (let temp_dice = remove_n 4 num my_dice
      in replicate 4 num @ [if temp_dice \<noteq> [] then hd temp_dice else num])"

text \<open>
  \<^verbatim>\<open>for num in sequence: if num in temp_dice: target_dice.append(num); temp_dice.remove(num)\<close>
\<close>

fun pick_present :: "int list \<Rightarrow> int list \<Rightarrow> int list \<Rightarrow> int list \<times> int list" where
  "pick_present target temp [] = (target, temp)"
| "pick_present target temp (num # sequence) =
     (if num \<in> set temp then pick_present (target @ [num]) (remove1 num temp) sequence
      else pick_present target temp sequence)"

text \<open>The search for the best partial straight (lines 910-917).\<close>

definition best_partial_of :: "int list \<Rightarrow> int list list \<Rightarrow> int list option \<times> nat" where
  "best_partial_of sdu sequences =
     foldl (\<lambda>(best_partial, best_count) sequence.
              let count = length (filter (\<lambda>x. x \<in> set sdu) sequence)
              in if count > best_count then (Some sequence, count) else (best_partial, best_count))
       (None, 0) sequences"

text \<open>The nested search for a triple and a pair over a range of numbers (lines 829-851).\<close>

definition triple_pair :: "int list \<Rightarrow> int list \<Rightarrow> (int \<times> int) option" where
  "triple_pair my_dice rng =
     find (\<lambda>(num1, num2). count_list my_dice num1 \<ge> 3 \<and> num2 \<noteq> num1
                            \<and> count_list my_dice num2 \<ge> 2)
       (List.product rng rng)"

text \<open>\<^verbatim>\<open>find_optimal_dice_for_rule\<close>, lines 694-983.\<close>

definition find_optimal_dice_for_rule :: "Game \<Rightarrow> DiceRule \<Rightarrow> py_error + (int list \<times> int)" where
  "find_optimal_dice_for_rule g r =
     (let my_dice = dice (my_state g) in
      if r \<in> set [ONE, TWO, THREE, FOUR, FIVE, SIX] then
        (let target_number = int (rule_value r) + 1;
             target_count = count_list my_dice target_number
         in if target_count > 0 then with_score (number_rule_dice g target_number) r
            else default_dice my_dice r)
      else if r = CHOICE then
        (if current_round g \<ge> 10 then with_score (take 5 (sorted_dice g)) r
         else Inr (replicate 5 0, 0))
      else if r = FOUR_OF_A_KIND then
        (if current_round g \<le> 8 then
           (case find (\<lambda>num. count_list my_dice num \<ge> 4) [4, 5, 6] of
              Some num \<Rightarrow> with_score (four_kind_dice my_dice num) r
            | None \<Rightarrow> Inr (replicate 5 0, 0))
         else
           (case find (\<lambda>num. count_list my_dice num \<ge> 4) [1, 2, 3, 4, 5, 6] of
              Some num \<Rightarrow> with_score (four_kind_dice my_dice num) r
            | None \<Rightarrow> default_dice my_dice r))
      else if r = FULL_HOUSE then
        (if current_round g \<le> 8 then
           (case triple_pair my_dice [4, 5, 6] of
              Some (num1, num2) \<Rightarrow> with_score (replicate 3 num1 @ replicate 2 num2) r
            | None \<Rightarrow> Inr (replicate 5 0, 0))
         else
           (case triple_pair my_dice [1, 2, 3, 4, 5, 6] of
              Some (num1, num2) \<Rightarrow> with_score (replicate 3 num1 @ replicate 2 num2) r
            | None \<Rightarrow> default_dice my_dice r))
      else if r = SMALL_STRAIGHT then
        (let sdu = sorted_dice_unique g;
             sequences = [[1, 2, 3, 4], [2, 3, 4, 5], [3, 4, 5, 6]]
         in case find (\<lambda>sequence. list_all (\<lambda>x. x \<in> set sdu) sequence) sequences of
              Some sequence \<Rightarrow>
                (let (target_dice, temp_dice) = pick_present [] my_dice sequence
                 in with_score
                      (target_dice @
                         [if temp_dice \<noteq> [] then hd temp_dice
                          else if last sequence < 6 then last sequence + 1
                          else hd sequence - 1]) r)
            | None \<Rightarrow>
                (case best_partial_of sdu sequences of
                   (Some best_partial, best_count) \<Rightarrow>
                     if best_count \<ge> 1 then Inr (fst (pick_present [] my_dice best_partial), 0)
                     else default_dice my_dice r
                 | (None, best_count) \<Rightarrow> default_dice my_dice r))
      else if r = LARGE_STRAIGHT then
        (let sdu = sorted_dice_unique g in
         if list_all (\<lambda>x. x \<in> set sdu) [1, 2, 3, 4, 5]
         then with_score (fst (pick_present [] my_dice [1, 2, 3, 4, 5])) r
         else if list_all (\<lambda>x. x \<in> set sdu) [2, 3, 4, 5, 6]
         then with_score (fst (pick_present [] my_dice [2, 3, 4, 5, 6])) r
         else default_dice my_dice r)
      else
        (case find (\<lambda>num. count_list my_dice num \<ge> 5) [1, 2, 3, 4, 5, 6] of
           Some num \<Rightarrow> with_score (replicate 5 num) r
         | None \<Rightarrow> default_dice my_dice r))"

text \<open>\<^verbatim>\<open>should_use_rule_strategically\<close>, lines 479-527.\<close>

definition should_use_rule_strategically :: "Game \<Rightarrow> DiceRule \<Rightarrow> int \<Rightarrow> bool" where
  "should_use_rule_strategically g r score =
     (if r = YACHT then score > 0
      else if r = LARGE_STRAIGHT then score > 0
      else if r = SMALL_STRAIGHT then (if score > 0 then True else current_round g \<le> 6)
      else if r = FOUR_OF_A_KIND then score > 0
      else if r = FULL_HOUSE then
        (if current_round g \<le> 6 then score > 0 \<and> current_round g \<ge> 4 else score > 0)
      else if r = CHOICE then current_round g \<ge> 10 \<and> score > 0
      else if r \<in> set [ONE, TWO, THREE, FOUR, FIVE, SIX] then
        (if score \<ge> 3000 then True
         else if score \<ge> 1000 then (if current_round g \<le> 4 then False else True)
         else current_round g \<ge> 8)
      else True)"

text \<open>
  \<^verbatim>\<open>DiceRule(i)\<close>: the rule with value \<open>i\<close>; a value that no rule has raises
  \<^verbatim>\<open>ValueError\<close>.
\<close>

definition DiceRule_of :: "nat \<Rightarrow> py_error + DiceRule" where
  "DiceRule_of i =
     (case find (\<lambda>r. rule_value r = i)
             [ONE, TWO, THREE, FOUR, FIVE, SIX, CHOICE, FOUR_OF_A_KIND, FULL_HOUSE,
              SMALL_STRAIGHT, LARGE_STRAIGHT, YACHT] of
        Some r \<Rightarrow> Inr r
      | None \<Rightarrow> Inl ValueError)"

text \<open>\<^verbatim>\<open>[i for i, score in enumerate(self.my_state.rule_score) if score is None]\<close>\<close>

definition unused_rules_of :: "GameState \<Rightarrow> nat list" where
  "unused_rules_of s = filter (\<lambda>i. rule_score s ! i = None) [0..<length (rule_score s)]"

text \<open>The priority order of \<^verbatim>\<open>calculate_put\<close> (lines 574-587).\<close>

definition priority_rules :: "DiceRule list" where
  "priority_rules =
     [YACHT, LARGE_STRAIGHT, SMALL_STRAIGHT, FOUR_OF_A_KIND, FULL_HOUSE, CHOICE,
      SIX, FIVE, FOUR, THREE, TWO, ONE]"

text \<open>
  The clean-up loops (lines 596-620): the first low number held at least \<open>threshold\<close>
  times whose rule is unused is placed at once. \<open>None\<close> means that the loop ends without
  a return.
\<close>

fun cleanup :: "Game \<Rightarrow> nat list \<Rightarrow> nat \<Rightarrow> int list \<Rightarrow> (py_error + DicePut) option" where
  "cleanup g unused_rules threshold [] = None"
| "cleanup g unused_rules threshold (low_num # rest) =
     (if count_list (dice (my_state g)) low_num \<ge> threshold
         \<and> nat (low_num - 1) \<in> set unused_rules
      then Some (case DiceRule_of (nat (low_num - 1)) of
                   Inl e \<Rightarrow> Inl e
                 | Inr r \<Rightarrow>
                     (case find_optimal_dice_for_rule g r of
                        Inl e \<Rightarrow> Inl e
                      | Inr (ds, score) \<Rightarrow> Inr \<lparr>rule = r, put_dice = ds\<rparr>))
      else cleanup g unused_rules threshold rest)"

text \<open>
  One round of the priority loop (lines 623-648). The state is the pair of
  \<^verbatim>\<open>(best_rule, best_dice)\<close>, \<open>None\<close> while \<^verbatim>\<open>best_rule is None\<close>, and \<^verbatim>\<open>best_score\<close>.
\<close>

definition priority_step ::
  "Game \<Rightarrow> nat list \<Rightarrow> (DiceRule \<times> int list) option \<times> int \<Rightarrow> DiceRule
     \<Rightarrow> py_error + ((DiceRule \<times> int list) option \<times> int)" where
  "priority_step g unused_rules st r =
     (case st of (best, best_score) \<Rightarrow>
      if rule_value r \<in> set unused_rules then
        (case find_optimal_dice_for_rule g r of
           Inl e \<Rightarrow> Inl e
         | Inr (ds, score) \<Rightarrow>
             if should_use_rule_strategically g r score then
               (if r \<in> set [SMALL_STRAIGHT, LARGE_STRAIGHT] \<and> score = 0 then
                  (if best = None
                      \<or> (fst (the best) \<notin> set [YACHT, LARGE_STRAIGHT, SMALL_STRAIGHT]
                          \<or> best_score = 0)
                   then Inr (Some (r, ds), score)
                   else Inr (best, best_score))
                else if score > best_score then Inr (Some (r, ds), score)
                else Inr (best, best_score))
             else Inr (best, best_score))
      else Inr (best, best_score))"

fun priority_loop ::
  "Game \<Rightarrow> nat list \<Rightarrow> (DiceRule \<times> int list) option \<times> int \<Rightarrow> DiceRule list
     \<Rightarrow> py_error + ((DiceRule \<times> int list) option \<times> int)" where
  "priority_loop g unused_rules st [] = Inr st"
| "priority_loop g unused_rules st (r # rs) =
     (case priority_step g unused_rules st r of
        Inl e \<Rightarrow> Inl e
      | Inr st' \<Rightarrow> priority_loop g unused_rules st' rs)"

text \<open>The score-only loop over the unused rules (lines 651-659).\<close>

fun score_loop ::
  "Game \<Rightarrow> (DiceRule \<times> int list) option \<times> int \<Rightarrow> nat list
     \<Rightarrow> py_error + ((DiceRule \<times> int list) option \<times> int)" where
  "score_loop g st [] = Inr st"
| "score_loop g st (rule_index # rest) =
     (case DiceRule_of rule_index of
        Inl e \<Rightarrow> Inl e
      | Inr r \<Rightarrow>
          (case find_optimal_dice_for_rule g r of
             Inl e \<Rightarrow> Inl e
           | Inr (ds, score) \<Rightarrow>
               if score > snd st then score_loop g (Some (r, ds), score) rest
               else score_loop g st rest))"

text \<open>
  \<^verbatim>\<open>calculate_put\<close>, lines 559-667. The call assigns \<^verbatim>\<open>sorted_dice_unique\<close> and
  \<^verbatim>\<open>sorted_dice\<close> and changes nothing else of the session; the result is the returned
  \<^verbatim>\<open>DicePut\<close>, or the exception.
\<close>

definition calculate_put :: "Game \<Rightarrow> py_error + DicePut" where
  "calculate_put g0 =
     (let my_dice = dice (my_state g0);
          g = g0\<lparr>sorted_dice_unique := sort (remdups my_dice), sorted_dice := rev (sort my_dice)\<rparr>;
          unused_rules = unused_rules_of (my_state g);
          high_value_rules_completed =
            (my_yacht_completed g \<and> slot (my_state g) LARGE_STRAIGHT \<noteq> None
               \<and> slot (my_state g) SMALL_STRAIGHT \<noteq> None);
          early = (if high_value_rules_completed then cleanup g unused_rules 3 [1, 2, 3]
                   else if my_yacht_completed g then cleanup g unused_rules 4 [1, 2, 3]
                   else None)
      in case early of
           Some result \<Rightarrow> result
         | None \<Rightarrow>
             (case priority_loop g unused_rules (None, - 1) priority_rules of
                Inl e \<Rightarrow> Inl e
              | Inr st \<Rightarrow>
                  (case (if fst st = None then score_loop g st unused_rules else Inr st) of
                     Inl e \<Rightarrow> Inl e
                   | Inr (Some (best_rule, best_dice), best_score) \<Rightarrow>
                       Inr \<lparr>rule = best_rule, put_dice = best_dice\<rparr>
                   | Inr (None, best_score) \<Rightarrow>
                       (case unused_rules of
                          [] \<Rightarrow> Inl IndexError
                        | i # rest \<Rightarrow>
                            (case DiceRule_of i of
                               Inl e \<Rightarrow> Inl e
                             | Inr r \<Rightarrow>
                                 Inr \<lparr>rule = r,
                                      put_dice = (if length my_dice \<ge> 5 then take 5 my_dice
                                                  else replicate 5 0)\<rparr>)))))"

text \<open>
  The state named by claim C9: pool 1,1,2,2,3, the rules ONE, TWO and THREE filled, round 4.
\<close>

definition game_round4 :: Game where
  "game_round4 =
     \<lparr>my_state = \<lparr>dice = [1, 1, 2, 2, 3],
                  rule_score = [Some 3000, Some 6000, Some 9000, None, None, None, None, None,
                                None, None, None, None],
                  bid_score = 0\<rparr>,
      opp_state = GameState_init, current_round = 4, opponent_bids = Map.empty,
      opponent_yacht_completed = False, my_yacht_completed = False,
      sorted_dice_unique = [], sorted_dice = []\<rparr>"

text \<open>
  A round-7 state in which no rule passes \<^verbatim>\<open>should_use_rule_strategically\<close>: the number
  rules and SMALL_STRAIGHT are filled, the pool holds no large straight, no four of a kind
  and no full house.
\<close>

definition game_round7 :: Game where
  "game_round7 =
     \<lparr>my_state = \<lparr>dice = [1, 1, 2, 2, 3, 3, 5, 5, 6, 1],
                  rule_score = [Some 1000, Some 2000, Some 3000, Some 4000, Some 5000, Some 6000,
                                None, None, None, Some 0, None, None],
                  bid_score = 0\<rparr>,
      opp_state = GameState_init, current_round = 7, opponent_bids = Map.empty,
      opponent_yacht_completed = False, my_yacht_completed = False,
      sorted_dice_unique = [], sorted_dice = []\<rparr>"

section \<open>Final-round valuation (\<^verbatim>\<open>main.py\<close>)\<close>

text \<open>
  \<^verbatim>\<open>calculate_rule_potential_score\<close> of \<^verbatim>\<open>main.py\<close>, lines 257-318. The \<^verbatim>\<open>elif\<close> chain
  tests YACHT together with \<^verbatim>\<open>not self.my_yacht_completed\<close>; a YACHT that fails either
  test, or that finds no five equal dice, runs to the final \<^verbatim>\<open>return 0\<close>. FULL_HOUSE
  takes the first number held three times or more, drops it from the hand and asks for a
  pair among the rest.
\<close>

definition calculate_rule_potential_score_main :: "Game \<Rightarrow> int list \<Rightarrow> DiceRule \<Rightarrow> py_error + int" where
  "calculate_rule_potential_score_main g ds r =
     (if r = ONE then Inr (sum_list (filter (\<lambda>d. d = 1) ds) * 1000)
      else if r = TWO then Inr (sum_list (filter (\<lambda>d. d = 2) ds) * 1000)
      else if r = THREE then Inr (sum_list (filter (\<lambda>d. d = 3) ds) * 1000)
      else if r = FOUR then Inr (sum_list (filter (\<lambda>d. d = 4) ds) * 1000)
      else if r = FIVE then Inr (sum_list (filter (\<lambda>d. d = 5) ds) * 1000)
      else if r = SIX then Inr (sum_list (filter (\<lambda>d. d = 6) ds) * 1000)
      else if r = CHOICE then Inr (sum_list ds * 1000)
      else if r = FOUR_OF_A_KIND then
        Inr (if any_1_6 (\<lambda>i. count_list ds i \<ge> 4) then sum_list ds * 1000 else 0)
      else if r = YACHT \<and> \<not> my_yacht_completed g then
        Inr (if any_1_6 (\<lambda>i. count_list ds i = 5) then 50000 else 0)
      else if r = FULL_HOUSE then
        (case find (\<lambda>i. count_list ds i \<ge> 3) [1, 2, 3, 4, 5, 6] of
           None \<Rightarrow> Inr 0
         | Some triple_number \<Rightarrow>
             (let remaining_dice = filter (\<lambda>d. d \<noteq> triple_number) ds;
                  has_pair = any_1_6 (\<lambda>i. count_list remaining_dice i \<ge> 2)
              in Inr (if has_pair then sum_list ds * 1000 else 0)))
      else if r = SMALL_STRAIGHT then
        (case mark_values (replicate 7 False) ds of
           Inl e \<Rightarrow> Inl e
         | Inr has \<Rightarrow>
             Inr (if (has ! 1 \<and> has ! 2 \<and> has ! 3 \<and> has ! 4)
                     \<or> (has ! 2 \<and> has ! 3 \<and> has ! 4 \<and> has ! 5)
                     \<or> (has ! 3 \<and> has ! 4 \<and> has ! 5 \<and> has ! 6)
                  then 15000 else 0))
      else if r = LARGE_STRAIGHT then
        (case mark_values (replicate 7 False) ds of
           Inl e \<Rightarrow> Inl e
         | Inr has \<Rightarrow>
             Inr (if (has ! 1 \<and> has ! 2 \<and> has ! 3 \<and> has ! 4 \<and> has ! 5)
                     \<or> (has ! 2 \<and> has ! 3 \<and> has ! 4 \<and> has ! 5 \<and> has ! 6)
                  then 30000 else 0))
      else Inr 0)"

text \<open>
  The five nested index loops of \<^verbatim>\<open>calculate_highest_possible_score_for_last_turn\<close>
  (lines 340-344) over a list of \<open>n\<close> dice, in loop order.
\<close>

definition five_indices :: "nat \<Rightarrow> nat list list" where
  "five_indices n =
     concat (map (\<lambda>i.
       concat (map (\<lambda>j.
         concat (map (\<lambda>k.
           concat (map (\<lambda>l.
             map (\<lambda>m. [i, j, k, l, m]) [l + 1..<n])
           [k + 1..<n - 1]))
         [j + 1..<n - 2]))
       [i + 1..<n - 3]))
     [0..<n - 4])"

text \<open>\<^verbatim>\<open>dice_for_rule1\<close> and \<^verbatim>\<open>dice_for_rule2\<close> (lines 346-348).\<close>

definition dice_at :: "int list \<Rightarrow> nat list \<Rightarrow> int list" where
  "dice_at combined_dice idxs = map (\<lambda>i. combined_dice ! i) idxs"

definition dice_not_at :: "int list \<Rightarrow> nat list \<Rightarrow> int list" where
  "dice_not_at combined_dice idxs =
     map snd (filter (\<lambda>(idx, d). idx \<notin> set idxs) (enumerate 0 combined_dice))"

text \<open>The body of the loops, with \<^verbatim>\<open>max_score\<close> as the accumulator (lines 350-355).\<close>

fun last_turn_loop ::
  "Game \<Rightarrow> int list \<Rightarrow> DiceRule \<Rightarrow> DiceRule \<Rightarrow> int \<Rightarrow> nat list list \<Rightarrow> py_error + int" where
  "last_turn_loop g combined_dice rule1 rule2 max_score [] = Inr max_score"
| "last_turn_loop g combined_dice rule1 rule2 max_score (idxs # rest) =
     (case calculate_rule_potential_score_main g (dice_at combined_dice idxs) rule1 of
        Inl e \<Rightarrow> Inl e
      | Inr score1 \<Rightarrow>
          (case calculate_rule_potential_score_main g (dice_not_at combined_dice idxs) rule2 of
             Inl e \<Rightarrow> Inl e
           | Inr score2 \<Rightarrow>
               last_turn_loop g combined_dice rule1 rule2 (max max_score (score1 + score2)) rest))"

text \<open>
  \<^verbatim>\<open>remaining_rules\<close> (lines 326-329): the rules whose slot is \<^verbatim>\<open>None\<close>, in the order of
  their values 0..11.
\<close>

definition remaining_rules_of :: "GameState \<Rightarrow> DiceRule list" where
  "remaining_rules_of s =
     filter (\<lambda>r. slot s r = None)
       [ONE, TWO, THREE, FOUR, FIVE, SIX, CHOICE, FOUR_OF_A_KIND, FULL_HOUSE,
        SMALL_STRAIGHT, LARGE_STRAIGHT, YACHT]"

text \<open>\<^verbatim>\<open>calculate_highest_possible_score_for_last_turn\<close>, \<^verbatim>\<open>main.py\<close> lines 320-357.\<close>

definition calculate_highest_possible_score_for_last_turn :: "Game \<Rightarrow> int list \<Rightarrow> py_error + int" where
  "calculate_highest_possible_score_for_last_turn g dice_group =
     (let combined_dice = dice (my_state g) @ dice_group;
          remaining_rules = remaining_rules_of (my_state g)
      in case remaining_rules of
           [rule1, rule2] \<Rightarrow>
             last_turn_loop g combined_dice rule1 rule2 0 (five_indices (length combined_dice))
         | _ \<Rightarrow> Inr 0)"

text \<open>
  The value of a split in the terms of the claim: the first hand holds the dice at the
  positions \<open>idxs\<close>, the second hand the other dice; \<open>ra\<close> scores the first hand and \<open>rb\<close>
  the second, both with the potential score of \<^verbatim>\<open>main.py\<close>.
\<close>

definition potential_value :: "Game \<Rightarrow> int list \<Rightarrow> DiceRule \<Rightarrow> int" where
  "potential_value g ds r =
     (case calculate_rule_potential_score_main g ds r of Inl e \<Rightarrow> 0 | Inr v \<Rightarrow> v)"

definition split_value :: "Game \<Rightarrow> int list \<Rightarrow> DiceRule \<Rightarrow> DiceRule \<Rightarrow> nat list \<Rightarrow> int" where
  "split_value g combined_dice ra rb idxs =
     potential_value g (dice_at combined_dice idxs) ra
       + potential_value g (dice_not_at combined_dice idxs) rb"

text \<open>
  A final-round state: five 2s in the pool, every rule filled but CHOICE and FULL_HOUSE.
\<close>

definition game_last_turn :: Game where
  "game_last_turn =
     \<lparr>my_state = \<lparr>dice = [2, 2, 2, 2, 2],
                  rule_score = [Some 3000, Some 6000, Some 9000, Some 12000, Some 15000,
                                Some 18000, None, Some 0, None, Some 15000, Some 30000, Some 0],
                  bid_score = 0\<rparr>,
      opp_state = GameState_init, current_round = 13, opponent_bids = Map.empty,
      opponent_yacht_completed = False, my_yacht_completed = False,
      sorted_dice_unique = [], sorted_dice = []\<rparr>"

text \<open>The positions of \<open>[0..<n]\<close> that are not in \<open>idxs\<close>: the other hand of a split.\<close>

definition complement_idxs :: "nat \<Rightarrow> nat list \<Rightarrow> nat list" where
  "complement_idxs n idxs = filter (\<lambda>i. i \<notin> set idxs) [0..<n]"

section \<open>Verified properties\<close>

subsection \<open>Scoring: helper lemmas\<close>

lemma any_1_6_iff: "any_1_6 p \<longleftrightarrow> (\<exists>i\<in>{1..6}. p i)"
proof -
  have "{1..6::int} = {1, 2, 3, 4, 5, 6}" by auto
  then show ?thesis by (simp add: any_1_6_def)
qed

lemma sum_list_filter_eq: "sum_list (filter (\<lambda>d. d = k) ds) = int (count_list ds k) * k"
  by (induction ds) (auto simp: algebra_simps)

lemma calculate_score_nonneg_dvd:
  assumes "\<forall>d\<in>set ds. 0 \<le> d"
  shows "0 \<le> calculate_score r ds \<and> 1000 dvd calculate_score r ds"
proof -
  have s: "0 \<le> sum_list ds" using assms by (simp add: sum_list_nonneg)
  show ?thesis using s by (cases r) (simp_all add: sum_list_filter_eq Let_def)
qed

lemma calculate_score_t2_nonneg_dvd:
  assumes "\<forall>d\<in>set ds. 0 \<le> d"
  shows "0 \<le> calculate_score_t2 r ds \<and> 1000 dvd calculate_score_t2 r ds"
proof -
  have s: "0 \<le> sum_list ds" using assms by (simp add: sum_list_nonneg)
  show ?thesis using s by (cases r) (simp_all add: Let_def)
qed

lemma fixed_awards:
  "calculate_score SMALL_STRAIGHT ds \<in> {0, 15000}"
  "calculate_score LARGE_STRAIGHT ds \<in> {0, 30000}"
  "calculate_score YACHT ds \<in> {0, 50000}"
  "calculate_score_t2 SMALL_STRAIGHT ds \<in> {0, 15000}"
  "calculate_score_t2 LARGE_STRAIGHT ds \<in> {0, 30000}"
  "calculate_score_t2 YACHT ds \<in> {0, 50000}"
  by (simp_all add: Let_def del: set_simps)

lemma use_dice_stores:
  "use_dice s put = Inr s' \<Longrightarrow>
     rule_score s' ! rule_value (rule put) = Some (calculate_score (rule put) (put_dice put))"
  by (simp add: use_dice_def Let_def split: if_splits) auto

lemma use_dice_init_full_house:
  "use_dice GameState_init \<lparr>rule = FULL_HOUSE, put_dice = [3, 3, 3, 5, 5]\<rparr> =
     Inr \<lparr>dice = [],
          rule_score = [None, None, None, None, None, None, None, None, Some 19000, None, None, None],
          bid_score = 0\<rparr>"
  by (simp add: use_dice_def GameState_init_def Let_def any_1_6_def numeral_eq_Suc)

subsection \<open>C4: bid resolution\<close>



subsection \<open>C5: total score\<close>

lemma len12:
  "length xs = 12 \<Longrightarrow> \<exists>a b c d e f g h i j k l. xs = [a, b, c, d, e, f, g, h, i, j, k, l]"
  by (simp add: numeral_eq_Suc length_Suc_conv) blast

lemma sum_filled_alt: "sum_filled xs = (\<Sum>x\<leftarrow>xs. case x of None \<Rightarrow> 0 | Some v \<Rightarrow> v)"
  unfolding sum_filled_def by (induction xs) (auto split: option.splits)

text \<open>
  C5. For a state with its twelve slots, \<^verbatim>\<open>get_total_score\<close> is the sum of the filled
  number rules ONE..SIX, plus 35000 exactly when that subtotal is at least 63000 (so 62999
  adds nothing and 63000 adds 35000), plus the sum of the other filled rules, plus the
  ledger. It reads only \<^verbatim>\<open>rule_score\<close> and \<^verbatim>\<open>bid_score\<close>: two states that agree on both
  have the same total, so no cached total exists.
\<close>

theorem get_total_score_formula:
  assumes "length (rule_score s) = 12"
  shows "get_total_score s =
     (let basic = (\<Sum>r\<leftarrow>[ONE, TWO, THREE, FOUR, FIVE, SIX]. filled s r)
      in basic + (if basic \<ge> 63000 then 35000 else 0)
         + (\<Sum>r\<leftarrow>[CHOICE, FOUR_OF_A_KIND, FULL_HOUSE, SMALL_STRAIGHT, LARGE_STRAIGHT, YACHT].
              filled s r)
         + bid_score s)
    \<and> (rule_score t = rule_score s \<and> bid_score t = bid_score s
         \<longrightarrow> get_total_score t = get_total_score s)"
proof -
  obtain a b c d e f g h i j k l where xs: "rule_score s = [a, b, c, d, e, f, g, h, i, j, k, l]"
    using len12[OF assms] by blast
  have "get_total_score s =
     (let basic = (\<Sum>r\<leftarrow>[ONE, TWO, THREE, FOUR, FIVE, SIX]. filled s r)
      in basic + (if basic \<ge> 63000 then 35000 else 0)
         + (\<Sum>r\<leftarrow>[CHOICE, FOUR_OF_A_KIND, FULL_HOUSE, SMALL_STRAIGHT, LARGE_STRAIGHT, YACHT].
              filled s r)
         + bid_score s)"
    by (simp add: get_total_score_def sum_filled_alt filled_def xs Let_def)
  moreover have "rule_score t = rule_score s \<and> bid_score t = bid_score s
         \<longrightarrow> get_total_score t = get_total_score s"
    by (simp add: get_total_score_def)
  ultimately show ?thesis by blast
qed

theorem get_total_score_formula_witness:
  "length (rule_score \<lparr>dice = [], rule_score = [Some 3000, Some 6000, Some 9000, Some 12000,
        Some 15000, Some 18000, None, None, Some 19000, None, None, Some 50000],
        bid_score = - 500\<rparr>) = 12
   \<and> get_total_score \<lparr>dice = [], rule_score = [Some 3000, Some 6000, Some 9000, Some 12000,
        Some 15000, Some 18000, None, None, Some 19000, None, None, Some 50000],
        bid_score = - 500\<rparr> = 63000 + 35000 + 69000 - 500
   \<and> get_total_score \<lparr>dice = [], rule_score = [Some 3000, Some 6000, Some 9000, Some 12000,
        Some 15000, Some 17999, None, None, Some 19000, None, None, Some 50000],
        bid_score = - 500\<rparr> = 62999 + 0 + 69000 - 500"
  using get_total_score_formula [of "\<lparr>dice = [], rule_score = [Some 3000, Some 6000, Some 9000,
        Some 12000, Some 15000, Some 18000, None, None, Some 19000, None, None, Some 50000],
        bid_score = - 500\<rparr>" "\<lparr>dice = [], rule_score = [Some 3000, Some 6000, Some 9000,
        Some 12000, Some 15000, Some 18000, None, None, Some 19000, None, None, Some 50000],
        bid_score = - 500\<rparr>"]
    get_total_score_formula [of "\<lparr>dice = [], rule_score = [Some 3000, Some 6000, Some 9000,
        Some 12000, Some 15000, Some 17999, None, None, Some 19000, None, None, Some 50000],
        bid_score = - 500\<rparr>" "\<lparr>dice = [], rule_score = [Some 3000, Some 6000, Some 9000,
        Some 12000, Some 15000, Some 17999, None, None, Some 19000, None, None, Some 50000],
        bid_score = - 500\<rparr>"]
  by (simp add: filled_def)

subsection \<open>C10: scores are nonnegative multiples of 1000\<close>

text \<open>
  C10. For every rule and every hand of nonnegative dice values, \<^verbatim>\<open>calculate_score\<close>
  (both the \<^verbatim>\<open>1650.py\<close> and the \<^verbatim>\<open>test2.py\<close> text) returns a nonnegative multiple of
  1000; SMALL_STRAIGHT, LARGE_STRAIGHT and YACHT return the fixed awards 15000, 30000, 50000
  or 0; and the score that \<^verbatim>\<open>use_dice\<close> stores in the rule's slot is such a multiple.
\<close>

theorem calculate_score_multiple_of_1000:
  assumes "\<forall>d\<in>set ds. 0 \<le> d"
  shows "0 \<le> calculate_score r ds \<and> 1000 dvd calculate_score r ds
       \<and> 0 \<le> calculate_score_t2 r ds \<and> 1000 dvd calculate_score_t2 r ds
       \<and> calculate_score SMALL_STRAIGHT ds \<in> {0, 15000}
       \<and> calculate_score LARGE_STRAIGHT ds \<in> {0, 30000}
       \<and> calculate_score YACHT ds \<in> {0, 50000}
       \<and> (use_dice s \<lparr>rule = r, put_dice = ds\<rparr> = Inr s' \<longrightarrow>
            (\<exists>v. rule_score s' ! rule_value r = Some v \<and> 0 \<le> v \<and> 1000 dvd v))"
proof -
  have a: "0 \<le> calculate_score r ds \<and> 1000 dvd calculate_score r ds"
    by (rule calculate_score_nonneg_dvd[OF assms])
  have b: "0 \<le> calculate_score_t2 r ds \<and> 1000 dvd calculate_score_t2 r ds"
    by (rule calculate_score_t2_nonneg_dvd[OF assms])
  have d: "use_dice s \<lparr>rule = r, put_dice = ds\<rparr> = Inr s' \<longrightarrow>
            (\<exists>v. rule_score s' ! rule_value r = Some v \<and> 0 \<le> v \<and> 1000 dvd v)"
    using a use_dice_stores[of s "\<lparr>rule = r, put_dice = ds\<rparr>" s'] by simp
  show ?thesis using a b d fixed_awards(1,2,3)[of ds] by blast
qed

theorem calculate_score_multiple_of_1000_witness:
  "use_dice GameState_init \<lparr>rule = FULL_HOUSE, put_dice = [3, 3, 3, 5, 5]\<rparr> =
       Inr \<lparr>dice = [],
          rule_score = [None, None, None, None, None, None, None, None, Some 19000, None, None, None],
          bid_score = 0\<rparr>
   \<and> calculate_score FULL_HOUSE [3, 3, 3, 5, 5] = 19000
   \<and> 0 \<le> calculate_score FULL_HOUSE [3, 3, 3, 5, 5]
   \<and> 1000 dvd calculate_score FULL_HOUSE [3, 3, 3, 5, 5]
   \<and> 0 \<le> calculate_score_t2 FULL_HOUSE [3, 3, 3, 5, 5]
   \<and> 1000 dvd calculate_score_t2 FULL_HOUSE [3, 3, 3, 5, 5]"
  using calculate_score_multiple_of_1000 [of "[3, 3, 3, 5, 5]" FULL_HOUSE GameState_init
      "\<lparr>dice = [],
          rule_score = [None, None, None, None, None, None, None, None, Some 19000, None, None, None],
          bid_score = 0\<rparr>"]
    use_dice_init_full_house
  by (simp add: any_1_6_def)

subsection \<open>C7: a filled slot stays as it is\<close>

lemma apply_op_keeps_slot:
  assumes "i < length (rule_score s)" "rule_score s ! i = Some v" "apply_op s x = Inr s'"
  shows "rule_score s' ! i = Some v \<and> length (rule_score s') = length (rule_score s)"
proof (cases x)
  case (Op_bid ok amt)
  then show ?thesis using assms by (auto simp: bid_def)
next
  case (Op_add_dice ds)
  then show ?thesis using assms by (auto simp: add_dice_def)
next
  case (Op_use_dice put)
  then show ?thesis using assms
    by (auto simp: use_dice_def Let_def nth_list_update split: if_splits)
qed

lemma apply_ops_keeps_slot:
  "i < length (rule_score s) \<Longrightarrow> rule_score s ! i = Some v \<Longrightarrow> apply_ops s ops = Inr s'
     \<Longrightarrow> rule_score s' ! i = Some v"
proof (induction ops arbitrary: s)
  case Nil
  then show ?case by simp
next
  case (Cons x xs)
  then obtain s1 where s1: "apply_op s x = Inr s1" and rest: "apply_ops s1 xs = Inr s'"
    by (auto split: sum.splits)
  from apply_op_keeps_slot[OF Cons.prems(1,2) s1] Cons.prems(1)
  have "i < length (rule_score s1)" "rule_score s1 ! i = Some v" by simp_all
  then show ?case using Cons.IH rest by blast
qed

lemma rule_value_lt_12: "rule_value r < 12"
  by (cases r) simp_all

lemma apply_ops_example:
  "apply_ops \<lparr>dice = [], rule_score = [Some 3000, None, None, None, None, None, None, None,
        None, None, None, None], bid_score = 0\<rparr>
     [Op_bid True 5, Op_add_dice [1, 2, 3, 4, 5],
      Op_use_dice \<lparr>rule = TWO, put_dice = [1, 2, 3, 4, 5]\<rparr>]
   = Inr \<lparr>dice = [], rule_score = [Some 3000, Some 2000, None, None, None, None, None, None,
        None, None, None, None], bid_score = - 5\<rparr>"
  by (simp add: bid_def add_dice_def use_dice_def Let_def)

text \<open>
  C7. In a state with its twelve slots, a slot that holds a score keeps that score through
  every run of bid resolutions, dice awards and placements that completes without an
  exception, and a placement that names the filled rule raises the \<^verbatim>\<open>assert\<close> of
  \<^verbatim>\<open>use_dice\<close> (\<^verbatim>\<open>AssertionError\<close>, "Rule already used") instead of storing anything.
\<close>

theorem filled_slot_immutable:
  assumes "length (rule_score s) = 12" and "rule_score s ! rule_value r = Some v"
  shows "(apply_ops s ops = Inr s' \<longrightarrow> rule_score s' ! rule_value r = Some v)
       \<and> use_dice s \<lparr>rule = r, put_dice = ds\<rparr> = Inl AssertionError"
proof -
  have lt: "rule_value r < length (rule_score s)" using assms(1) rule_value_lt_12 by simp
  have a: "apply_ops s ops = Inr s' \<longrightarrow> rule_score s' ! rule_value r = Some v"
    using apply_ops_keeps_slot[OF lt assms(2)] by blast
  have b: "use_dice s \<lparr>rule = r, put_dice = ds\<rparr> = Inl AssertionError"
    using lt assms(2) by (simp add: use_dice_def Let_def)
  show ?thesis using a b by blast
qed

theorem filled_slot_immutable_witness:
  "apply_ops \<lparr>dice = [], rule_score = [Some 3000, None, None, None, None, None, None, None,
        None, None, None, None], bid_score = 0\<rparr>
     [Op_bid True 5, Op_add_dice [1, 2, 3, 4, 5],
      Op_use_dice \<lparr>rule = TWO, put_dice = [1, 2, 3, 4, 5]\<rparr>]
   = Inr \<lparr>dice = [], rule_score = [Some 3000, Some 2000, None, None, None, None, None, None,
        None, None, None, None], bid_score = - 5\<rparr>
   \<and> rule_score \<lparr>dice = [], rule_score = [Some 3000, Some 2000, None, None, None, None, None,
        None, None, None, None, None], bid_score = - 5\<rparr> ! rule_value ONE = Some 3000
   \<and> use_dice \<lparr>dice = [], rule_score = [Some 3000, None, None, None, None, None, None, None,
        None, None, None, None], bid_score = 0\<rparr> \<lparr>rule = ONE, put_dice = [1, 1, 1, 2, 2]\<rparr>
     = Inl AssertionError"
  using filled_slot_immutable [of "\<lparr>dice = [], rule_score = [Some 3000, None, None, None, None,
        None, None, None, None, None, None, None], bid_score = 0\<rparr>" ONE 3000
      "[Op_bid True 5, Op_add_dice [1, 2, 3, 4, 5],
        Op_use_dice \<lparr>rule = TWO, put_dice = [1, 2, 3, 4, 5]\<rparr>]"
      "\<lparr>dice = [], rule_score = [Some 3000, Some 2000, None, None, None, None, None,
        None, None, None, None, None], bid_score = - 5\<rparr>" "[1, 1, 1, 2, 2]"]
    apply_ops_example
  by simp

subsection \<open>C1: placement dice that are not in the pool\<close>

lemma mset_remove_present: "mset (remove_present pool ds) = mset pool - mset ds"
proof (induction ds arbitrary: pool)
  case Nil
  then show ?case by simp
next
  case (Cons d ds)
  show ?case
  proof (cases "d \<in> set pool")
    case True
    then show ?thesis using Cons.IH[of "remove1 d pool"] by simp
  next
    case False
    then have "mset pool - {#d#} = mset pool" by (simp add: diff_single_trivial)
    then have "mset pool - add_mset d (mset ds) = mset pool - mset ds"
      by (metis add_mset_add_single diff_diff_add_mset union_commute)
    then show ?thesis using False Cons.IH[of pool] by simp
  qed
qed

lemma remove_all_t2_Inr:
  "remove_all_t2 pool ds = Inr pool' \<Longrightarrow> mset ds \<subseteq># mset pool \<and> mset pool' = mset pool - mset ds"
proof (induction ds arbitrary: pool)
  case Nil
  then show ?case by simp
next
  case (Cons d ds)
  then have mem: "d \<in> set pool" and rest: "remove_all_t2 (remove1 d pool) ds = Inr pool'"
    by (auto split: if_splits)
  from Cons.IH[OF rest] have sub: "mset ds \<subseteq># mset pool - {#d#}"
    and eq: "mset pool' = mset pool - {#d#} - mset ds" by simp_all
  have "add_mset d (mset ds) \<subseteq># mset pool"
    using sub mem by (metis insert_DiffM mset_subset_eq_add_mset_cancel set_mset_mset)
  then show ?case using eq by simp
qed

lemma remove_all_t2_Inl:
  "remove_all_t2 pool ds = Inl e \<Longrightarrow> e = ValueError \<and> \<not> mset ds \<subseteq># mset pool"
proof (induction ds arbitrary: pool)
  case Nil
  then show ?case by simp
next
  case (Cons d ds)
  show ?case
  proof (cases "d \<in> set pool")
    case True
    then have rest: "remove_all_t2 (remove1 d pool) ds = Inl e" using Cons.prems by simp
    from Cons.IH[OF rest] have e: "e = ValueError"
      and ns: "\<not> mset ds \<subseteq># mset pool - {#d#}" by simp_all
    have "\<not> add_mset d (mset ds) \<subseteq># mset pool"
      using ns True by (metis insert_DiffM mset_subset_eq_add_mset_cancel set_mset_mset)
    then show ?thesis using e by simp
  next
    case False
    then have "e = ValueError" using Cons.prems by simp
    moreover have "\<not> add_mset d (mset ds) \<subseteq># mset pool"
      using False by (metis insert_subset_eq_iff set_mset_mset)
    ultimately show ?thesis by simp
  qed
qed

text \<open>
  The optimizer of \<^verbatim>\<open>1650.py\<close> relies on the skip: before round 10 it values CHOICE
  with the hand 0,0,0,0,0, and when no rule passes its strategic test it returns that hand.
  \<^verbatim>\<open>use_dice\<close> then finds none of the five dice in the pool, skips them all and stores 0.
\<close>

lemma calculate_put_zero_hand:
  "calculate_put game_round7 = Inr \<lparr>rule = CHOICE, put_dice = [0, 0, 0, 0, 0]\<rparr>"
  "use_dice (my_state game_round7) \<lparr>rule = CHOICE, put_dice = [0, 0, 0, 0, 0]\<rparr>
     = Inr \<lparr>dice = [1, 1, 2, 2, 3, 3, 5, 5, 6, 1],
            rule_score = [Some 1000, Some 2000, Some 3000, Some 4000, Some 5000, Some 6000,
                          Some 0, None, None, Some 0, None, None],
            bid_score = 0\<rparr>"
  by code_simp+

text \<open>
  C1, as stated, fails on \<^verbatim>\<open>use_dice\<close> of \<^verbatim>\<open>1650.py\<close> (and \<^verbatim>\<open>main.py\<close>): with the pool
  1,2,3,4,5 and every rule open, the placement CHOICE 6,6,6,6,6 names five dice that are not
  in the pool; the call returns normally, the pool is untouched and CHOICE is stored as 30000.
\<close>

theorem use_dice_skips_missing_dice:
  "use_dice \<lparr>dice = [1, 2, 3, 4, 5], rule_score = replicate 12 None, bid_score = 0\<rparr>
       \<lparr>rule = CHOICE, put_dice = [6, 6, 6, 6, 6]\<rparr>
   = Inr \<lparr>dice = [1, 2, 3, 4, 5],
          rule_score = [None, None, None, None, None, None, Some 30000, None, None, None, None, None],
          bid_score = 0\<rparr>"
  by (simp add: use_dice_def Let_def numeral_eq_Suc)

text \<open>
  C1 as amended. For a placement on an open rule: \<^verbatim>\<open>use_dice\<close> of \<^verbatim>\<open>1650.py\<close> and
  \<^verbatim>\<open>main.py\<close> always returns; the pool loses the named dice that it holds (multiset
  difference, so a named die that is missing is skipped), and the rule is scored on the
  dice as the placement names them. \<^verbatim>\<open>use_dice\<close> of \<^verbatim>\<open>test2.py\<close> raises
  \<^verbatim>\<open>ValueError\<close> exactly when the named dice are not in the pool with their multiplicity,
  and otherwise removes exactly them.
\<close>

theorem use_dice_missing_dice_by_variant:
  assumes "rule_value (rule put) < length (rule_score s)"
      and "rule_score s ! rule_value (rule put) = None"
  shows "(\<exists>s'. use_dice s put = Inr s'
            \<and> mset (dice s') = mset (dice s) - mset (put_dice put)
            \<and> rule_score s' = (rule_score s)[rule_value (rule put) :=
                 Some (calculate_score (rule put) (put_dice put))]
            \<and> bid_score s' = bid_score s)
       \<and> (use_dice_t2 s put = Inl ValueError \<longleftrightarrow> \<not> mset (put_dice put) \<subseteq># mset (dice s))
       \<and> (mset (put_dice put) \<subseteq># mset (dice s) \<longleftrightarrow>
            (\<exists>s'. use_dice_t2 s put = Inr s'
               \<and> mset (dice s') = mset (dice s) - mset (put_dice put)))"
proof -
  have a: "\<exists>s'. use_dice s put = Inr s'
            \<and> mset (dice s') = mset (dice s) - mset (put_dice put)
            \<and> rule_score s' = (rule_score s)[rule_value (rule put) :=
                 Some (calculate_score (rule put) (put_dice put))]
            \<and> bid_score s' = bid_score s"
    using assms by (simp add: use_dice_def Let_def mset_remove_present)
  show ?thesis
  proof (cases "remove_all_t2 (dice s) (put_dice put)")
    case (Inl e)
    from remove_all_t2_Inl[OF Inl] have e: "e = ValueError"
      and ns: "\<not> mset (put_dice put) \<subseteq># mset (dice s)" by simp_all
    have "use_dice_t2 s put = Inl ValueError"
      using assms Inl e by (simp add: use_dice_t2_def Let_def)
    then show ?thesis using a ns by simp
  next
    case (Inr pool)
    from remove_all_t2_Inr[OF Inr] have sub: "mset (put_dice put) \<subseteq># mset (dice s)"
      and eq: "mset pool = mset (dice s) - mset (put_dice put)" by simp_all
    have "use_dice_t2 s put = Inr (s\<lparr>dice := pool,
                       rule_score := (rule_score s)[rule_value (rule put) :=
                          Some (calculate_score_t2 (rule put) (put_dice put))]\<rparr>)"
      using assms Inr by (simp add: use_dice_t2_def Let_def)
    then show ?thesis using a sub eq by simp
  qed
qed

theorem use_dice_missing_dice_by_variant_witness:
  "use_dice \<lparr>dice = [1, 2, 3, 4, 5, 6], rule_score = replicate 12 None, bid_score = 0\<rparr>
       \<lparr>rule = ONE, put_dice = [1, 1, 2, 3, 4]\<rparr>
   = Inr \<lparr>dice = [5, 6],
          rule_score = [Some 2000, None, None, None, None, None, None, None, None, None, None, None],
          bid_score = 0\<rparr>
   \<and> use_dice_t2 \<lparr>dice = [1, 2, 3, 4, 5, 6], rule_score = replicate 12 None, bid_score = 0\<rparr>
       \<lparr>rule = ONE, put_dice = [1, 1, 2, 3, 4]\<rparr> = Inl ValueError"
  using use_dice_missing_dice_by_variant [of "\<lparr>rule = ONE, put_dice = [1, 1, 2, 3, 4]\<rparr>"
      "\<lparr>dice = [1, 2, 3, 4, 5, 6], rule_score = replicate 12 None, bid_score = 0\<rparr>"]
  by (simp add: use_dice_def use_dice_t2_def Let_def numeral_eq_Suc)

subsection \<open>C2: FULL_HOUSE\<close>

lemma two_counts_le: "a \<noteq> b \<Longrightarrow> count_list ds a + count_list ds b \<le> length ds"
  by (induction ds) auto

lemma count_pos_mem: "0 < count_list ds a \<Longrightarrow> a \<in> set ds"
  using count_list_0_iff[of ds a] by auto

lemma in_rng:
  assumes rng: "\<forall>d\<in>set ds. 1 \<le> d \<and> d \<le> 6" and "0 < count_list ds a"
  shows "a \<in> {1..6}"
  using assms count_pos_mem[of ds a] by auto

lemma full_house_1650:
  assumes len: "length ds = 5" and rng: "\<forall>d\<in>set ds. 1 \<le> d \<and> d \<le> 6"
  shows "calculate_score FULL_HOUSE ds = (if full_house_shape ds then sum_list ds * 1000 else 0)"
proof -
  have excl: "\<And>a b. count_list ds a = 2 \<Longrightarrow> count_list ds b = 5 \<Longrightarrow> False"
  proof -
    fix a b assume a: "count_list ds a = 2" and b: "count_list ds b = 5"
    then have "a \<noteq> b" by auto
    from two_counts_le[OF this, of ds] a b len show False by simp
  qed
  have excl2: "\<And>a b. count_list ds a = 3 \<Longrightarrow> count_list ds b = 5 \<Longrightarrow> False"
  proof -
    fix a b assume a: "count_list ds a = 3" and b: "count_list ds b = 5"
    then have "a \<noteq> b" by auto
    from two_counts_le[OF this, of ds] a b len show False by simp
  qed
  have pair: "any_1_6 (\<lambda>i. count_list ds i = 2 \<or> count_list ds i = 5)
                \<longleftrightarrow> (\<exists>a. count_list ds a = 2 \<or> count_list ds a = 5)"
    unfolding any_1_6_iff using in_rng[OF rng] by (metis zero_less_numeral)
  have triple: "any_1_6 (\<lambda>i. count_list ds i = 3 \<or> count_list ds i = 5)
                \<longleftrightarrow> (\<exists>a. count_list ds a = 3 \<or> count_list ds a = 5)"
    unfolding any_1_6_iff using in_rng[OF rng] by (metis zero_less_numeral)
  have "(\<exists>a. count_list ds a = 2 \<or> count_list ds a = 5)
          \<and> (\<exists>a. count_list ds a = 3 \<or> count_list ds a = 5)
          \<longleftrightarrow> full_house_shape ds"
    unfolding full_house_shape_def strict_full_house_def using excl excl2
    by (metis numeral_eq_iff semiring_norm(88))
  then show ?thesis using pair triple by (simp add: Let_def)
qed

lemma full_house_t2:
  assumes rng: "\<forall>d\<in>set ds. 1 \<le> d \<and> d \<le> 6"
  shows "calculate_score_t2 FULL_HOUSE ds = (if strict_full_house ds then sum_list ds * 1000 else 0)"
proof -
  have mem: "\<And>n. 0 < n \<Longrightarrow> n \<in> set (counts_t2 ds) \<longleftrightarrow> (\<exists>a. count_list ds a = n)"
  proof -
    fix n :: nat assume n: "0 < n"
    have "n \<in> set (counts_t2 ds) \<longleftrightarrow> (\<exists>a\<in>{1..6}. count_list ds a = n)"
    proof -
      have "{1..6::int} = {1, 2, 3, 4, 5, 6}" by auto
      then show ?thesis by (auto simp: counts_t2_def)
    qed
    also have "\<dots> \<longleftrightarrow> (\<exists>a. count_list ds a = n)"
      using in_rng[OF rng] n by blast
    finally show "n \<in> set (counts_t2 ds) \<longleftrightarrow> (\<exists>a. count_list ds a = n)" .
  qed
  have "3 \<in> set (counts_t2 ds) \<and> 2 \<in> set (counts_t2 ds) \<longleftrightarrow> strict_full_house ds"
    unfolding strict_full_house_def using mem[of 3] mem[of 2]
    by (metis numeral_eq_iff semiring_norm(88) zero_less_numeral)
  then show ?thesis by simp
qed

text \<open>
  C2, as stated, fails on \<^verbatim>\<open>calculate_score\<close> of \<^verbatim>\<open>test2.py\<close>, whose FULL_HOUSE test is
  \<^verbatim>\<open>3 in counts and 2 in counts\<close>: the five-of-a-kind hand 2,2,2,2,2 scores 0 there, not
  10000.
\<close>

theorem full_house_t2_five_of_a_kind:
  "calculate_score_t2 FULL_HOUSE [2, 2, 2, 2, 2] = 0"
  by (simp add: counts_t2_def)

text \<open>
  C2 as amended. For every hand of five dice with values 1..6: \<^verbatim>\<open>calculate_score\<close> of
  \<^verbatim>\<open>1650.py\<close> and \<^verbatim>\<open>main.py\<close> gives FULL_HOUSE the score \<open>sum * 1000\<close> when the hand is a
  three-count with a different two-count or a five-of-a-kind, and 0 otherwise (19000 for
  3,3,3,5,5 and 10000 for 2,2,2,2,2); \<^verbatim>\<open>calculate_score\<close> of \<^verbatim>\<open>test2.py\<close> gives
  \<open>sum * 1000\<close> only for a three-count with a different two-count, and 0 otherwise, so 0
  for a five-of-a-kind.
\<close>

theorem full_house_score_by_variant:
  assumes "length ds = 5" and "\<forall>d\<in>set ds. 1 \<le> d \<and> d \<le> 6"
  shows "calculate_score FULL_HOUSE ds = (if full_house_shape ds then sum_list ds * 1000 else 0)
       \<and> calculate_score_t2 FULL_HOUSE ds =
           (if strict_full_house ds then sum_list ds * 1000 else 0)
       \<and> calculate_score FULL_HOUSE [3, 3, 3, 5, 5] = 19000
       \<and> calculate_score FULL_HOUSE [2, 2, 2, 2, 2] = 10000
       \<and> calculate_score_t2 FULL_HOUSE [3, 3, 3, 5, 5] = 19000"
proof -
  have "calculate_score FULL_HOUSE [3, 3, 3, 5, 5] = 19000"
    by (simp add: any_1_6_def)
  moreover have "calculate_score FULL_HOUSE [2, 2, 2, 2, 2] = 10000"
    by (simp add: any_1_6_def)
  moreover have "calculate_score_t2 FULL_HOUSE [3, 3, 3, 5, 5] = 19000"
    by (simp add: counts_t2_def)
  ultimately show ?thesis
    using full_house_1650[OF assms] full_house_t2[OF assms(2)] by simp
qed

theorem full_house_score_by_variant_witness:
  "length [6, 4, 6, 4, 6 :: int] = 5
   \<and> calculate_score FULL_HOUSE [6, 4, 6, 4, 6] = 26000
   \<and> calculate_score_t2 FULL_HOUSE [6, 4, 6, 4, 6] = 26000"
  using full_house_score_by_variant [of "[6, 4, 6, 4, 6]"]
  by (simp add: any_1_6_def counts_t2_def)

subsection \<open>C3: the sampled estimator\<close>

lemma set_combinations: "set (combinations xs k) = {ys. subseq ys xs \<and> length ys = k}"
proof (induction xs k rule: combinations.induct)
  case (1 xs)
  then show ?case by auto
next
  case (2 k)
  then show ?case by auto
next
  case (3 x xs k)
  show ?case
  proof (rule set_eqI)
    fix ys
    show "ys \<in> set (combinations (x # xs) (Suc k)) \<longleftrightarrow> ys \<in> {ys. subseq ys (x # xs) \<and> length ys = Suc k}"
    proof (cases ys)
      case Nil
      then show ?thesis using 3 by auto
    next
      case (Cons y zs)
      then show ?thesis using 3 by (auto simp: subseq_Cons2_iff list_emb_Cons subseq_Cons')
    qed
  qed
qed








lemma calculate_potential_score_t2_budget:
  "calculate_potential_score_t2 sample pool rules =
     calculate_potential_score_budget sample 300 pool rules"
  by (simp add: calculate_potential_score_t2_def)





subsection \<open>C9: a placement with fewer than five dice\<close>

text \<open>
  C9. At round 4, with the pool 1,1,2,2,3 and the rules ONE, TWO and THREE filled,
  \<^verbatim>\<open>find_optimal_dice_for_rule\<close> answers SMALL_STRAIGHT through its incomplete-straight
  path with the three dice 1,2,3 and score 0, and \<^verbatim>\<open>calculate_put\<close> returns exactly that
  placement: a \<^verbatim>\<open>DicePut\<close> of three dice, not five. \<^verbatim>\<open>use_dice\<close> accepts it, stores 0
  for SMALL_STRAIGHT and leaves 1,2 in the pool.
\<close>

theorem calculate_put_fewer_than_five_dice:
  "calculate_put game_round4 = Inr \<lparr>rule = SMALL_STRAIGHT, put_dice = [1, 2, 3]\<rparr>
   \<and> length (put_dice \<lparr>rule = SMALL_STRAIGHT, put_dice = [1, 2, 3]\<rparr>) < 5
   \<and> find_optimal_dice_for_rule
        (game_round4\<lparr>sorted_dice_unique := [1, 2, 3], sorted_dice := [3, 2, 2, 1, 1]\<rparr>)
        SMALL_STRAIGHT = Inr ([1, 2, 3], 0)
   \<and> use_dice (my_state game_round4) \<lparr>rule = SMALL_STRAIGHT, put_dice = [1, 2, 3]\<rparr>
       = Inr \<lparr>dice = [1, 2],
              rule_score = [Some 3000, Some 6000, Some 9000, None, None, None, None, None,
                            None, Some 0, None, None],
              bid_score = 0\<rparr>"
  by code_simp

subsection \<open>C6: the final-round valuation\<close>

lemma py_index_in_range: "0 \<le> d \<Longrightarrow> d \<le> 6 \<Longrightarrow> py_index 7 d = Some (nat d)"
  by (simp add: py_index_def)

lemma mark_values_in_range:
  "length has = 7 \<Longrightarrow> \<forall>d\<in>set ds. 0 \<le> d \<and> d \<le> 6 \<Longrightarrow>
     \<exists>has'. mark_values has ds = Inr has' \<and> length has' = 7
            \<and> (\<forall>i<7. has' ! i = (has ! i \<or> int i \<in> set ds))"
proof (induction ds arbitrary: has)
  case Nil
  then show ?case by simp
next
  case (Cons d ds)
  have d: "0 \<le> d" "d \<le> 6" using Cons.prems(2) by simp_all
  let ?has1 = "has[nat d := True]"
  have len1: "length ?has1 = 7" using Cons.prems(1) by simp
  from Cons.IH[OF len1] Cons.prems(2)
  obtain has' where h: "mark_values ?has1 ds = Inr has'" "length has' = 7"
    "\<forall>i<7. has' ! i = (?has1 ! i \<or> int i \<in> set ds)" by auto
  have step: "mark_values has (d # ds) = Inr has'"
    using h(1) d Cons.prems(1) by (simp add: py_index_in_range)
  have "\<forall>i<7. has' ! i = (has ! i \<or> int i \<in> set (d # ds))"
  proof (intro allI impI)
    fix i :: nat assume i: "i < 7"
    have nd: "nat d < length has" using d Cons.prems(1) by simp
    have "?has1 ! i = (has ! i \<or> i = nat d)"
      using i Cons.prems(1) nd by (cases "i = nat d") simp_all
    moreover have "i = nat d \<longleftrightarrow> int i = d" using d by auto
    ultimately show "has' ! i = (has ! i \<or> int i \<in> set (d # ds))"
      using h(3) i by auto
  qed
  then show ?case using step h(2) by blast
qed

lemma mark_values_fresh:
  assumes "\<forall>d\<in>set ds. 0 \<le> d \<and> d \<le> 6"
  shows "\<exists>has'. mark_values (replicate 7 False) ds = Inr has'
            \<and> (\<forall>i<7. has' ! i = (int i \<in> set ds))"
proof -
  from mark_values_in_range[of "replicate 7 False" ds] assms
  obtain has' where h: "mark_values (replicate 7 False) ds = Inr has'"
    "\<forall>i<7. has' ! i = (replicate 7 False ! i \<or> int i \<in> set ds)" by auto
  have "\<forall>i<7. has' ! i = (int i \<in> set ds)"
    using h(2) by simp
  then show ?thesis using h(1) by blast
qed

lemma potential_main_total:
  assumes rng: "\<forall>d\<in>set ds. 0 \<le> d \<and> d \<le> 6"
  shows "\<exists>v. calculate_rule_potential_score_main g ds r = Inr v \<and> 0 \<le> v"
proof -
  have s: "0 \<le> sum_list ds" using rng by (simp add: sum_list_nonneg)
  have f: "\<And>k. 0 \<le> k \<Longrightarrow> 0 \<le> sum_list (filter (\<lambda>d. d = k) ds)"
    by (simp add: sum_list_filter_eq)
  obtain has' where h: "mark_values (replicate 7 False) ds = Inr has'"
    using mark_values_fresh[OF rng] by blast
  show ?thesis
    using s h by (cases r) (simp_all add: calculate_rule_potential_score_main_def f Let_def split: option.splits)
qed

lemma dice_not_at_subset: "set (dice_not_at cd idxs) \<subseteq> set cd"
  by (auto simp: dice_not_at_def in_set_enumerate_eq)

lemma dice_at_subset: "set idxs \<subseteq> {..<length cd} \<Longrightarrow> set (dice_at cd idxs) \<subseteq> set cd"
  by (auto simp: dice_at_def)

lemma potential_value_Inr:
  assumes "\<forall>d\<in>set ds. 0 \<le> d \<and> d \<le> 6"
  shows "calculate_rule_potential_score_main g ds r = Inr (potential_value g ds r)
       \<and> 0 \<le> potential_value g ds r"
  using potential_main_total[OF assms, of g r] by (auto simp: potential_value_def)

lemma last_turn_loop_Max:
  assumes rng: "\<forall>d\<in>set cd. 0 \<le> d \<and> d \<le> 6"
      and idx: "\<forall>idxs\<in>set idxss. set idxs \<subseteq> {..<length cd}"
  shows "last_turn_loop g cd r1 r2 m idxss = Inr (Max (insert m (split_value g cd r1 r2 ` set idxss)))"
  using idx
proof (induction idxss arbitrary: m)
  case Nil
  then show ?case by simp
next
  case (Cons idxs rest)
  have in1: "\<forall>d\<in>set (dice_at cd idxs). 0 \<le> d \<and> d \<le> 6"
    using dice_at_subset[of idxs cd] Cons.prems rng by auto
  have in2: "\<forall>d\<in>set (dice_not_at cd idxs). 0 \<le> d \<and> d \<le> 6"
    using dice_not_at_subset[of cd idxs] rng by auto
  have s1: "calculate_rule_potential_score_main g (dice_at cd idxs) r1
              = Inr (potential_value g (dice_at cd idxs) r1)"
    using potential_value_Inr[OF in1] by simp
  have s2: "calculate_rule_potential_score_main g (dice_not_at cd idxs) r2
              = Inr (potential_value g (dice_not_at cd idxs) r2)"
    using potential_value_Inr[OF in2] by simp
  have step: "last_turn_loop g cd r1 r2 m (idxs # rest)
                = last_turn_loop g cd r1 r2 (max m (split_value g cd r1 r2 idxs)) rest"
    by (simp add: s1 s2 split_value_def)
  have rest: "\<forall>idxs\<in>set rest. set idxs \<subseteq> {..<length cd}" using Cons.prems by simp
  let ?T = "split_value g cd r1 r2 ` set rest"
  have "Max (insert (max m (split_value g cd r1 r2 idxs)) ?T)
          = Max (insert m (insert (split_value g cd r1 r2 idxs) ?T))"
  proof (cases "?T = {}")
    case True
    then show ?thesis by (simp add: max_def)
  next
    case False
    then show ?thesis by (simp add: max.assoc)
  qed
  then show ?case using Cons.IH[OF rest, of "max m (split_value g cd r1 r2 idxs)"] step by simp
qed

lemma five_indices_10: "five_indices 10 = combinations [0..<10] 5"
  by code_simp

lemma set_five_indices_10: "set (five_indices 10) = {idxs. subseq idxs [0..<10] \<and> length idxs = 5}"
  by (simp only: five_indices_10 set_combinations)

lemma subseq_upt_bound: "subseq idxs [0..<n] \<Longrightarrow> set idxs \<subseteq> {..<n}"
proof
  fix x assume "subseq idxs [0..<n]" "x \<in> set idxs"
  then obtain y where "y \<in> set [0..<n]" "x = y" by (rule list_emb_set)
  then show "x \<in> {..<n}" by simp
qed

lemma enumerate_upt: "enumerate 0 cd = map (\<lambda>k. (k, cd ! k)) [0..<length cd]"
  using enumerate_map_upt[of 0 "\<lambda>k. cd ! k" "length cd"] by (simp add: map_nth)

lemma dice_not_at_alt:
  "dice_not_at cd idxs = map (\<lambda>i. cd ! i) (filter (\<lambda>i. i \<notin> set idxs) [0..<length cd])"
  unfolding dice_not_at_def enumerate_upt by (simp add: filter_map comp_def)


lemma subseq_set_subset: "subseq ys xs \<Longrightarrow> set ys \<subseteq> set xs"
proof
  fix x assume "subseq ys xs" "x \<in> set ys"
  then obtain y where "y \<in> set xs" "x = y" by (rule list_emb_set)
  then show "x \<in> set xs" by simp
qed

lemma subseq_filter_mem:
  "subseq ys xs \<Longrightarrow> distinct xs \<Longrightarrow> filter (\<lambda>x. x \<in> set ys) xs = ys"
proof (induction rule: list_emb.induct)
  case (list_emb_Nil ys)
  then show ?case by simp
next
  case (list_emb_Cons xs ys y)
  have "set xs \<subseteq> set ys" using list_emb_Cons.hyps by (rule subseq_set_subset)
  then have "y \<notin> set xs" using list_emb_Cons.prems by auto
  then show ?case using list_emb_Cons by simp
next
  case (list_emb_Cons2 x y xs ys)
  then have xy: "x = y" and d: "distinct ys" and ny: "y \<notin> set ys" by simp_all
  have "filter (\<lambda>a. a \<in> set (x # xs)) ys = filter (\<lambda>a. a \<in> set xs) ys"
    using ny xy by (intro filter_cong) auto
  then show ?case using list_emb_Cons2.IH xy d by simp
qed

lemma subseq_distinct_list: "subseq ys xs \<Longrightarrow> distinct xs \<Longrightarrow> distinct ys"
proof -
  assume a: "subseq ys xs" "distinct xs"
  have "distinct (filter (\<lambda>x. x \<in> set ys) xs)" using a(2) by simp
  then show "distinct ys" using subseq_filter_mem[OF a] by simp
qed


lemma filter_mem_upt:
  assumes s: "subseq idxs [0..<n]"
  shows "filter (\<lambda>i. i \<in> set idxs) [0..<n] = idxs"
  using subseq_filter_mem[OF s] by simp

lemma complement_subseq: "subseq (complement_idxs n idxs) [0..<n]"
  by (simp add: complement_idxs_def)

lemma complement_length:
  assumes s: "subseq idxs [0..<n]"
  shows "length (complement_idxs n idxs) = n - length idxs"
proof -
  have "length (filter (\<lambda>i. i \<in> set idxs) [0..<n])
          + length (filter (\<lambda>i. \<not> i \<in> set idxs) [0..<n]) = length [0..<n]"
    by (rule sum_length_filter_compl)
  then show ?thesis using filter_mem_upt[OF s] by (simp add: complement_idxs_def)
qed

lemma complement_complement:
  assumes s: "subseq idxs [0..<n]"
  shows "complement_idxs n (complement_idxs n idxs) = idxs"
proof -
  have "filter (\<lambda>i. i \<notin> set (filter (\<lambda>i. i \<notin> set idxs) [0..<n])) [0..<n]
          = filter (\<lambda>i. i \<in> set idxs) [0..<n]"
    by (rule filter_cong) auto
  then show ?thesis using filter_mem_upt[OF s] by (simp add: complement_idxs_def)
qed

lemma split_value_swap:
  assumes s: "subseq idxs [0..<length cd]"
  shows "split_value g cd r2 r1 idxs = split_value g cd r1 r2 (complement_idxs (length cd) idxs)"
proof -
  let ?c = "complement_idxs (length cd) idxs"
  have a: "dice_not_at cd idxs = dice_at cd ?c"
    by (simp add: dice_not_at_alt dice_at_def complement_idxs_def)
  have "dice_not_at cd ?c = dice_at cd (complement_idxs (length cd) ?c)"
    unfolding dice_not_at_alt dice_at_def complement_idxs_def ..
  then have b: "dice_not_at cd ?c = dice_at cd idxs"
    using complement_complement[OF s] by simp
  show ?thesis unfolding split_value_def a b by simp
qed

lemma count_filter_neq:
  "count_list (filter (\<lambda>d. d \<noteq> t) ds) i = (if i = t then 0 else count_list ds i)"
  by (induction ds) auto

lemma find_1_6_None:
  "find p [1, 2, 3, 4, 5, 6 :: int] = None \<longleftrightarrow> \<not> any_1_6 p"
  by (simp add: any_1_6_def find_None_iff)

lemma find_1_6_Some:
  "find p [1, 2, 3, 4, 5, 6 :: int] = Some t \<Longrightarrow> p t \<and> t \<in> {1..6}"
  by (auto split: if_splits)

lemma full_house_main_vs_score:
  assumes len: "length ds = 5"
  shows "calculate_rule_potential_score_main g ds FULL_HOUSE =
           Inr (if any_1_6 (\<lambda>i. count_list ds i = 5) then 0 else calculate_score FULL_HOUSE ds)"
proof -
  let ?c = "count_list ds"
  have two: "\<And>a b. a \<noteq> b \<Longrightarrow> ?c a + ?c b \<le> 5"
    using two_counts_le[of _ _ ds] len by simp
  show ?thesis
  proof (cases "find (\<lambda>i. ?c i \<ge> 3) [1, 2, 3, 4, 5, 6]")
    case None
    then have no3: "\<And>i. i \<in> {1..6} \<Longrightarrow> ?c i < 3"
      unfolding find_1_6_None any_1_6_iff by (meson not_le)
    have no5: "\<not> any_1_6 (\<lambda>i. ?c i = 5)"
      unfolding any_1_6_iff using no3 by fastforce
    have notriple: "\<not> any_1_6 (\<lambda>i. ?c i = 3 \<or> ?c i = 5)"
      unfolding any_1_6_iff using no3 by fastforce
    show ?thesis
      using None no5 notriple by (simp add: calculate_rule_potential_score_main_def Let_def)
  next
    case (Some t)
    from find_1_6_Some[OF Some] have t3: "?c t \<ge> 3" and tr: "t \<in> {1..6}" by simp_all
    have uniq: "\<And>b. ?c b \<ge> 3 \<Longrightarrow> b = t"
    proof (rule ccontr)
      fix b assume b: "?c b \<ge> 3" and "b \<noteq> t"
      from two[OF this(2)] b t3 show False by simp
    qed
    let ?hp = "any_1_6 (\<lambda>i. count_list (filter (\<lambda>d. d \<noteq> t) ds) i \<ge> 2)"
    have hp: "?hp \<longleftrightarrow> (\<exists>i\<in>{1..6}. i \<noteq> t \<and> ?c i \<ge> 2)"
      unfolding any_1_6_iff count_filter_neq by auto
    have pot: "calculate_rule_potential_score_main g ds FULL_HOUSE
                 = Inr (if ?hp then sum_list ds * 1000 else 0)"
      using Some by (simp add: calculate_rule_potential_score_main_def Let_def)
    show ?thesis
    proof (cases "any_1_6 (\<lambda>i. ?c i = 5)")
      case True
      then obtain f where f: "f \<in> {1..6}" "?c f = 5" unfolding any_1_6_iff by blast
      then have ft: "f = t" using uniq[of f] by simp
      have "\<not> ?hp"
      proof
        assume ?hp
        then obtain i where i: "i \<noteq> t" "?c i \<ge> 2" using hp by blast
        from two[OF i(1)] i(2) f(2) ft show False by simp
      qed
      then show ?thesis using pot True by simp
    next
      case False
      then have no5: "\<And>i. i \<in> {1..6} \<Longrightarrow> ?c i \<noteq> 5" unfolding any_1_6_iff by blast
      have pair: "any_1_6 (\<lambda>i. ?c i = 2 \<or> ?c i = 5) \<longleftrightarrow> (\<exists>i\<in>{1..6}. ?c i = 2)"
        unfolding any_1_6_iff using no5 by blast
      have triple: "any_1_6 (\<lambda>i. ?c i = 3 \<or> ?c i = 5) \<longleftrightarrow> (\<exists>i\<in>{1..6}. ?c i = 3)"
        unfolding any_1_6_iff using no5 by blast
      have "?hp \<longleftrightarrow> (\<exists>i\<in>{1..6}. ?c i = 2) \<and> (\<exists>i\<in>{1..6}. ?c i = 3)"
      proof
        assume ?hp
        then obtain i where i: "i \<in> {1..6}" "i \<noteq> t" "?c i \<ge> 2" using hp by blast
        from two[OF i(2)] i(3) t3 have "?c i = 2" "?c t = 3" by simp_all
        then show "(\<exists>i\<in>{1..6}. ?c i = 2) \<and> (\<exists>i\<in>{1..6}. ?c i = 3)"
          using i(1) tr by blast
      next
        assume "(\<exists>i\<in>{1..6}. ?c i = 2) \<and> (\<exists>i\<in>{1..6}. ?c i = 3)"
        then obtain a b where a: "a \<in> {1..6}" "?c a = 2" and b: "b \<in> {1..6}" "?c b = 3"
          by blast
        have "b = t" using uniq[of b] b(2) by simp
        then have "a \<noteq> t" using a(2) b(2) by auto
        then show ?hp using hp a by auto
      qed
      then show ?thesis using pot False pair triple by (simp add: Let_def)
    qed
  qed
qed

lemma has_value_mem: "has_value ds i \<longleftrightarrow> i \<in> set ds"
  using count_list_0_iff[of ds i] by (auto simp: has_value_def)

lemma straights_main_vs_score:
  assumes rng: "\<forall>d\<in>set ds. 0 \<le> d \<and> d \<le> 6"
  shows "calculate_rule_potential_score_main g ds SMALL_STRAIGHT = Inr (calculate_score SMALL_STRAIGHT ds)"
    and "calculate_rule_potential_score_main g ds LARGE_STRAIGHT = Inr (calculate_score LARGE_STRAIGHT ds)"
proof -
  obtain has' where h: "mark_values (replicate 7 False) ds = Inr has'"
    and v: "\<forall>i<7. has' ! i = (int i \<in> set ds)"
    using mark_values_fresh[OF rng] by blast
  have e: "has' ! 1 = (1 \<in> set ds)" "has' ! 2 = (2 \<in> set ds)" "has' ! 3 = (3 \<in> set ds)"
    "has' ! 4 = (4 \<in> set ds)" "has' ! 5 = (5 \<in> set ds)" "has' ! 6 = (6 \<in> set ds)"
    using v[rule_format, of 1] v[rule_format, of 2] v[rule_format, of 3]
      v[rule_format, of 4] v[rule_format, of 5] v[rule_format, of 6] by simp_all
  have e1: "has' ! Suc 0 = (1 \<in> set ds)" using e(1) by simp
  show "calculate_rule_potential_score_main g ds SMALL_STRAIGHT = Inr (calculate_score SMALL_STRAIGHT ds)"
    by (simp add: calculate_rule_potential_score_main_def h e e1 has_value_mem Let_def)
  show "calculate_rule_potential_score_main g ds LARGE_STRAIGHT = Inr (calculate_score LARGE_STRAIGHT ds)"
    by (simp add: calculate_rule_potential_score_main_def h e e1 has_value_mem Let_def)
qed

lemma potential_value_vs_score:
  assumes rng: "\<forall>d\<in>set ds. 0 \<le> d \<and> d \<le> 6" and len: "length ds = 5"
  shows "potential_value g ds r =
           (if (r = FULL_HOUSE \<and> any_1_6 (\<lambda>i. count_list ds i = 5))
               \<or> (r = YACHT \<and> my_yacht_completed g)
            then 0 else calculate_score r ds)"
proof (cases r)
  case FULL_HOUSE
  then show ?thesis using full_house_main_vs_score[OF len, of g] by (simp add: potential_value_def)
next
  case SMALL_STRAIGHT
  then show ?thesis using straights_main_vs_score(1)[OF rng, of g] by (simp add: potential_value_def)
next
  case LARGE_STRAIGHT
  then show ?thesis using straights_main_vs_score(2)[OF rng, of g] by (simp add: potential_value_def)
qed (simp_all add: potential_value_def calculate_rule_potential_score_main_def)

text \<open>
  C6 as amended. With exactly two open rules \<open>r1\<close>, \<open>r2\<close> and ten dice (values 0..6) in
  pool plus candidate group, \<^verbatim>\<open>calculate_highest_possible_score_for_last_turn\<close> returns a
  value \<open>v\<close> that is the exact maximum over every choice of five of the ten positions and
  over both assignments of the two rules to the two hands, of the sum of the two hands'
  scores under \<^verbatim>\<open>calculate_rule_potential_score\<close> of \<^verbatim>\<open>main.py\<close>: no split exceeds \<open>v\<close>
  and some split attains it. That potential score of a five-dice hand is the category
  score \<^verbatim>\<open>calculate_score\<close>, except that FULL_HOUSE on a five-of-a-kind is 0 and YACHT is
  0 once \<^verbatim>\<open>my_yacht_completed\<close> is set.
\<close>

theorem last_turn_valuation_exact:
  assumes len: "length (dice (my_state g) @ dice_group) = 10"
      and two: "remaining_rules_of (my_state g) = [r1, r2]"
      and rng: "\<forall>d\<in>set (dice (my_state g) @ dice_group). 0 \<le> d \<and> d \<le> 6"
  shows "\<exists>v. calculate_highest_possible_score_for_last_turn g dice_group = Inr v
       \<and> (\<forall>idxs. subseq idxs [0..<10] \<and> length idxs = 5 \<longrightarrow>
             split_value g (dice (my_state g) @ dice_group) r1 r2 idxs \<le> v
             \<and> split_value g (dice (my_state g) @ dice_group) r2 r1 idxs \<le> v)
       \<and> (\<exists>idxs. subseq idxs [0..<10] \<and> length idxs = 5
             \<and> v = split_value g (dice (my_state g) @ dice_group) r1 r2 idxs)
       \<and> (\<forall>hand r. (\<forall>d\<in>set hand. 0 \<le> d \<and> d \<le> 6) \<and> length hand = 5 \<longrightarrow>
             potential_value g hand r =
               (if (r = FULL_HOUSE \<and> any_1_6 (\<lambda>i. count_list hand i = 5))
                   \<or> (r = YACHT \<and> my_yacht_completed g)
                then 0 else calculate_score r hand))"
proof -
  let ?cd = "dice (my_state g) @ dice_group"
  let ?T = "split_value g ?cd r1 r2 ` set (five_indices 10)"
  let ?v = "Max (insert 0 ?T)"
  have bound: "\<forall>idxs\<in>set (five_indices (length ?cd)). set idxs \<subseteq> {..<length ?cd}"
    using len subseq_upt_bound[of _ 10] by (auto simp: set_five_indices_10)
  have res: "calculate_highest_possible_score_for_last_turn g dice_group = Inr ?v"
    using last_turn_loop_Max[OF rng bound, of g r1 r2 0] two len
    by (simp add: calculate_highest_possible_score_for_last_turn_def Let_def)
  have fin: "finite (insert 0 ?T)" by simp
  have up1: "\<And>idxs. subseq idxs [0..<10] \<Longrightarrow> length idxs = 5 \<Longrightarrow>
               split_value g ?cd r1 r2 idxs \<le> ?v"
  proof -
    fix idxs :: "nat list" assume "subseq idxs [0..<10]" "length idxs = 5"
    then have "idxs \<in> set (five_indices 10)" by (simp add: set_five_indices_10)
    then have "split_value g ?cd r1 r2 idxs \<in> insert 0 ?T" by blast
    then show "split_value g ?cd r1 r2 idxs \<le> ?v" using fin by (rule Max_ge[rotated])
  qed
  have up2: "\<And>idxs. subseq idxs [0..<10] \<Longrightarrow> length idxs = 5 \<Longrightarrow>
               split_value g ?cd r2 r1 idxs \<le> ?v"
  proof -
    fix idxs :: "nat list" assume s: "subseq idxs [0..<10]" and l: "length idxs = 5"
    have s': "subseq idxs [0..<length ?cd]" using s len by simp
    have sw: "split_value g ?cd r2 r1 idxs = split_value g ?cd r1 r2 (complement_idxs 10 idxs)"
      using split_value_swap[OF s', of g r2 r1] len by simp
    have "subseq (complement_idxs 10 idxs) [0..<10]" by (rule complement_subseq)
    moreover have "length (complement_idxs 10 idxs) = 5"
      using complement_length[OF s] l by simp
    ultimately show "split_value g ?cd r2 r1 idxs \<le> ?v" using up1 sw by simp
  qed
  have nonneg: "\<And>idxs. idxs \<in> set (five_indices 10) \<Longrightarrow> 0 \<le> split_value g ?cd r1 r2 idxs"
  proof -
    fix idxs assume m: "idxs \<in> set (five_indices 10)"
    then have "set idxs \<subseteq> {..<length ?cd}" using bound len by simp
    then have in1: "\<forall>d\<in>set (dice_at ?cd idxs). 0 \<le> d \<and> d \<le> 6"
      using dice_at_subset[of idxs ?cd] rng by blast
    have in2: "\<forall>d\<in>set (dice_not_at ?cd idxs). 0 \<le> d \<and> d \<le> 6"
      using dice_not_at_subset[of ?cd idxs] rng by blast
    show "0 \<le> split_value g ?cd r1 r2 idxs"
      using potential_value_Inr[OF in1, of g r1] potential_value_Inr[OF in2, of g r2]
      by (simp add: split_value_def)
  qed
  have first: "[0, 1, 2, 3, 4] \<in> set (five_indices 10)"
    by (simp add: set_five_indices_10 upt_rec)
  have att: "\<exists>idxs. subseq idxs [0..<10] \<and> length idxs = 5 \<and> ?v = split_value g ?cd r1 r2 idxs"
  proof -
    have "?v \<in> insert 0 ?T" using fin by (intro Max_in) auto
    then consider "?v = 0" | "?v \<in> ?T" by blast
    then show ?thesis
    proof cases
      case 1
      have "split_value g ?cd r1 r2 [0, 1, 2, 3, 4] \<le> ?v"
        using first fin by (intro Max_ge) auto
      then have "split_value g ?cd r1 r2 [0, 1, 2, 3, 4] = ?v"
        using nonneg[OF first] 1 by simp
      then show ?thesis using first by (auto simp: set_five_indices_10)
    next
      case 2
      then obtain idxs where "idxs \<in> set (five_indices 10)" "?v = split_value g ?cd r1 r2 idxs"
        by blast
      then show ?thesis by (auto simp: set_five_indices_10)
    qed
  qed
  have cmp: "\<forall>hand r. (\<forall>d\<in>set hand. 0 \<le> d \<and> d \<le> 6) \<and> length hand = 5 \<longrightarrow>
             potential_value g hand r =
               (if (r = FULL_HOUSE \<and> any_1_6 (\<lambda>i. count_list hand i = 5))
                   \<or> (r = YACHT \<and> my_yacht_completed g)
                then 0 else calculate_score r hand)"
    using potential_value_vs_score by blast
  show ?thesis using res up1 up2 att cmp by blast
qed

lemma last_turn_example:
  "remaining_rules_of (my_state game_last_turn) = [CHOICE, FULL_HOUSE]"
  "calculate_highest_possible_score_for_last_turn game_last_turn [1, 3, 4, 5, 6] = Inr 20000"
  "split_value game_last_turn ([2, 2, 2, 2, 2] @ [1, 3, 4, 5, 6]) CHOICE FULL_HOUSE [0, 6, 7, 8, 9]
     = 20000"
  "dice (my_state game_last_turn) = [2, 2, 2, 2, 2]"
  by code_simp+

theorem last_turn_valuation_exact_witness:
  "calculate_highest_possible_score_for_last_turn game_last_turn [1, 3, 4, 5, 6] = Inr 20000
   \<and> split_value game_last_turn ([2, 2, 2, 2, 2] @ [1, 3, 4, 5, 6]) CHOICE FULL_HOUSE
        [0, 6, 7, 8, 9] = 20000
   \<and> split_value game_last_turn ([2, 2, 2, 2, 2] @ [1, 3, 4, 5, 6]) CHOICE FULL_HOUSE
        [0, 1, 2, 3, 4] \<le> 20000"
proof -
  have len: "length (dice (my_state game_last_turn) @ [1, 3, 4, 5, 6]) = 10"
    by (simp add: last_turn_example(4))
  have rng: "\<forall>d\<in>set (dice (my_state game_last_turn) @ [1, 3, 4, 5, 6]). 0 \<le> d \<and> d \<le> 6"
    by (simp add: last_turn_example(4))
  from last_turn_valuation_exact [OF len last_turn_example(1) rng]
  obtain v where v: "calculate_highest_possible_score_for_last_turn game_last_turn [1, 3, 4, 5, 6] = Inr v"
    and up: "\<forall>idxs. subseq idxs [0..<10] \<and> length idxs = 5 \<longrightarrow>
               split_value game_last_turn (dice (my_state game_last_turn) @ [1, 3, 4, 5, 6])
                 CHOICE FULL_HOUSE idxs \<le> v"
    by blast
  have v20: "v = 20000" using v last_turn_example(2) by simp
  have "subseq [0, 1, 2, 3, 4] [0..<10] \<and> length [0, 1, 2, 3, 4 :: nat] = 5"
    by (simp add: upt_rec)
  then have "split_value game_last_turn (dice (my_state game_last_turn) @ [1, 3, 4, 5, 6])
                 CHOICE FULL_HOUSE [0, 1, 2, 3, 4] \<le> v"
    using up by blast
  then show ?thesis using v20 last_turn_example by simp
qed

text \<open>
  C6, as stated, fails when the two hands' scores are the category scores of
  \<^verbatim>\<open>calculate_score\<close>: with ten 2s and CHOICE and FULL_HOUSE open, every split gives two
  hands 2,2,2,2,2; the valuation returns 10000 (CHOICE 10000, FULL_HOUSE valued 0), while
  the category scores of the same split add up to 20000.
\<close>

theorem last_turn_valuation_misses_five_of_a_kind:
  "calculate_highest_possible_score_for_last_turn game_last_turn [2, 2, 2, 2, 2] = Inr 10000
   \<and> dice_at ([2, 2, 2, 2, 2] @ [2, 2, 2, 2, 2]) [0, 1, 2, 3, 4] = [2, 2, 2, 2, 2]
   \<and> dice_not_at ([2, 2, 2, 2, 2] @ [2, 2, 2, 2, 2]) [0, 1, 2, 3, 4] = [2, 2, 2, 2, 2]
   \<and> calculate_score CHOICE [2, 2, 2, 2, 2] + calculate_score FULL_HOUSE [2, 2, 2, 2, 2] = 20000"
  by code_simp

subsection \<open>Scoring examples of the specification\<close>

lemma score_examples:
  "calculate_score YACHT [6, 6, 6, 6, 6] = 50000"
  "calculate_score YACHT [6, 6, 6, 6, 5] = 0"
  "calculate_score SMALL_STRAIGHT [1, 2, 3, 4, 4] = 15000"
  "calculate_score SMALL_STRAIGHT [1, 1, 2, 3, 5] = 0"
  "calculate_score LARGE_STRAIGHT [2, 3, 4, 5, 6] = 30000"
  "calculate_score LARGE_STRAIGHT [1, 2, 3, 4, 6] = 0"
  "calculate_score ONE [1, 1, 1, 2, 2] = 3000"
  "calculate_score CHOICE [1, 1, 1, 2, 2] = 7000"
  "calculate_score_t2 YACHT [6, 6, 6, 6, 6] = 50000"
  "calculate_score_t2 YACHT [6, 6, 6, 6, 5] = 0"
  "calculate_score_t2 SMALL_STRAIGHT [1, 2, 3, 4, 4] = 15000"
  "calculate_score_t2 SMALL_STRAIGHT [1, 1, 2, 3, 5] = 0"
  "calculate_score_t2 LARGE_STRAIGHT [6, 3, 4, 5, 2] = 30000"
  "calculate_score_t2 LARGE_STRAIGHT [1, 2, 3, 4, 6] = 0"
  "calculate_score_t2 ONE [1, 1, 1, 2, 2] = 3000"
  "calculate_score_t2 CHOICE [1, 1, 1, 2, 2] = 7000"
  by code_simp+

end
